theory Spec2Isabelle
  imports Main "HOL-Library.Sublist"
begin

section \<open>Python strings\<close>

text \<open>
  A Python \<open>str\<close> is modelled as a \<open>string\<close>: every HOL character stands for one
  code point (below 256), so \<open>length\<close> is Python's \<open>len\<close>.
\<close>

abbreviation NL :: char where
  "NL \<equiv> CHR 0x0A"

abbreviation SQ :: char where
  "SQ \<equiv> CHR 0x27"

abbreviation DQ :: char where
  "DQ \<equiv> CHR 0x22"

text \<open>\<open>s.endswith(suffix)\<close>.\<close>

definition endswith :: "string \<Rightarrow> string \<Rightarrow> bool" where
  "endswith s suf =
     (length suf \<le> length s \<and> drop (length s - length suf) s = suf)"

text \<open>
  An index of a slice \<open>xs[i:j]\<close>: a negative index counts from the end, and the
  result is clamped to \<open>0 .. len(xs)\<close>.
\<close>

definition slice_index :: "nat \<Rightarrow> int \<Rightarrow> nat" where
  "slice_index n i = (if i < 0 then nat (int n + i) else min n (nat i))"

text \<open>\<open>xs[i:j]\<close>.\<close>

definition py_slice :: "'a list \<Rightarrow> int \<Rightarrow> int \<Rightarrow> 'a list" where
  "py_slice xs i j =
     (let a = slice_index (length xs) i; b = slice_index (length xs) j
      in take (b - a) (drop a xs))"

text \<open>\<open>sep.join(parts)\<close>.\<close>

fun join :: "string \<Rightarrow> string list \<Rightarrow> string" where
  "join sep [] = []"
| "join sep [p] = p"
| "join sep (p # q # ps) = p @ sep @ join sep (q # ps)"

subsection \<open>\<open>int(s)\<close>\<close>

text \<open>
  \<open>int(s)\<close> of a \<open>str\<close>, base 10: white space is stripped on both sides, one sign
  may come first, then decimal digits, where single underscores may stand between
  two digits. Anything else raises \<open>ValueError\<close> (the value \<open>None\<close>).

  The white space \<open>int\<close> skips is the ASCII white space (tab, newline, vertical tab,
  form feed, carriage return, space) and, of the code points from 127 on, those that
  are white space in Unicode (below 256: \<open>0x85\<close> and \<open>0xA0\<close>). The separators
  \<open>0x1C\<close> to \<open>0x1F\<close> are not skipped: \<open>int\<close> raises on them.
\<close>

definition isspace :: "char \<Rightarrow> bool" where
  "isspace c = (of_char c \<in> {9, 10, 11, 12, 13, 32, 133, 160 :: nat})"

definition isdigit :: "char \<Rightarrow> bool" where
  "isdigit c = (48 \<le> (of_char c :: nat) \<and> (of_char c :: nat) \<le> 57)"

definition digit_val :: "char \<Rightarrow> nat" where
  "digit_val c = of_char c - 48"

definition strip :: "string \<Rightarrow> string" where
  "strip s = rev (dropWhile isspace (rev (dropWhile isspace s)))"

text \<open>The digits after the first one, \<open>acc\<close> being the value read so far.\<close>

fun int_digits :: "nat \<Rightarrow> string \<Rightarrow> nat option" where
  "int_digits acc [] = Some acc"
| "int_digits acc (c # cs) =
     (if isdigit c then int_digits (10 * acc + digit_val c) cs
      else if c = CHR ''_'' then
        (case cs of
           [] \<Rightarrow> None
         | d # ds \<Rightarrow> if isdigit d then int_digits (10 * acc + digit_val d) ds else None)
      else None)"

definition int_unsigned :: "string \<Rightarrow> nat option" where
  "int_unsigned s =
     (case s of
        [] \<Rightarrow> None
      | c # cs \<Rightarrow> if isdigit c then int_digits (digit_val c) cs else None)"

definition py_int :: "string \<Rightarrow> int option" where
  "py_int s =
     (case strip s of
        [] \<Rightarrow> None
      | c # cs \<Rightarrow>
          if c = CHR ''+'' then map_option int (int_unsigned cs)
          else if c = CHR ''-'' then map_option (\<lambda>n. - int n) (int_unsigned cs)
          else map_option int (int_unsigned (c # cs)))"

subsection \<open>\<open>shlex.quote\<close>\<close>

text \<open>
  \<open>shlex.quote(s)\<close>: the empty string becomes \<open>''\<close>; a string of safe characters
  only (ASCII letters, digits, and \<open>_@%+=:,./-\<close>) is returned as it is; any other
  one is put in single quotes, each single quote of it written \<open>'"'"'\<close>.
\<close>

definition safe_char :: "char \<Rightarrow> bool" where
  "safe_char c =
     (let n = (of_char c :: nat)
      in (48 \<le> n \<and> n \<le> 57) \<or> (65 \<le> n \<and> n \<le> 90) \<or> (97 \<le> n \<and> n \<le> 122)
         \<or> c \<in> set ''_@%+=:,./-'')"

definition shlex_quote :: "string \<Rightarrow> string" where
  "shlex_quote s =
     (if s = [] then [SQ, SQ]
      else if list_all safe_char s then s
      else [SQ] @ concat (map (\<lambda>c. if c = SQ then [SQ, DQ, SQ, DQ, SQ] else [c]) s) @ [SQ])"

section \<open>The host file system\<close>

text \<open>
  A path is the list of its components below the root, so \<open>[]\<close> is the root and
  \<open>butlast p\<close> the parent of \<open>p\<close>. Paths are absolute. The file system lists the
  paths with what is stored under each (the first entry of a path counts); the root
  is always a directory. An entry is only reached through directories: \<open>stat\<close>
  walks down from the root, and fails with \<open>FileNotFoundError\<close> at the first
  missing component and with \<open>NotADirectoryError\<close> below a regular file.
\<close>

type_synonym path = "string list"

datatype node = Dir | File

type_synonym filesystem = "(path \<times> node) list"

datatype cmd = Argv "string list" | Shell string

datatype error =
    CalledProcessError int cmd "string option"
  | ValueError
  | TypeError
  | FileExistsError
  | FileNotFoundError
  | NotADirectoryError

text \<open>\<open>str(path)\<close>.\<close>

definition path_str :: "path \<Rightarrow> string" where
  "path_str p = (if p = [] then ''/'' else concat (map (\<lambda>c. ''/'' @ c) p))"

function stat :: "filesystem \<Rightarrow> path \<Rightarrow> error + node" where
  "stat fs p =
     (if p = [] then Inr Dir
      else case stat fs (butlast p) of
             Inl e \<Rightarrow> Inl e
           | Inr File \<Rightarrow> Inl NotADirectoryError
           | Inr Dir \<Rightarrow> (case map_of fs p of None \<Rightarrow> Inl FileNotFoundError | Some n \<Rightarrow> Inr n))"
  by pat_completeness auto
termination
  by (relation "measure (\<lambda>(fs, p). length p)") auto

declare stat.simps [simp del]

text \<open>\<open>path.is_dir()\<close>: false also where the path cannot be reached.\<close>

definition is_dir :: "filesystem \<Rightarrow> path \<Rightarrow> bool" where
  "is_dir fs p = (stat fs p = Inr Dir)"

text \<open>\<open>os.mkdir(path)\<close>: the parent must be a directory and the path must be free.\<close>

definition os_mkdir :: "filesystem \<Rightarrow> path \<Rightarrow> error + filesystem" where
  "os_mkdir fs p =
     (if p = [] then Inl FileExistsError
      else case stat fs (butlast p) of
             Inl e \<Rightarrow> Inl e
           | Inr File \<Rightarrow> Inl NotADirectoryError
           | Inr Dir \<Rightarrow> (case map_of fs p of None \<Rightarrow> Inr ((p, Dir) # fs) | Some n \<Rightarrow> Inl FileExistsError))"

text \<open>
  \<open>path.mkdir(parents=..., exist_ok=...)\<close> of \<open>pathlib\<close>: it tries \<open>os.mkdir\<close>; on
  \<open>FileNotFoundError\<close> with \<open>parents\<close> it makes the parent first (with
  \<open>parents=True, exist_ok=True\<close>) and then the path itself without \<open>parents\<close>; any
  other error is dropped when \<open>exist_ok\<close> holds and the path is a directory.
\<close>

function mkdir :: "bool \<Rightarrow> bool \<Rightarrow> path \<Rightarrow> filesystem \<Rightarrow> error + filesystem" where
  "mkdir parents exist_ok p fs =
     (case os_mkdir fs p of
        Inr fs' \<Rightarrow> Inr fs'
      | Inl e \<Rightarrow>
          if e = FileNotFoundError then
            (if \<not> parents \<or> butlast p = p then Inl e
             else case mkdir True True (butlast p) fs of
                    Inl e' \<Rightarrow> Inl e'
                  | Inr fs1 \<Rightarrow> mkdir False exist_ok p fs1)
          else if \<not> exist_ok \<or> \<not> is_dir fs p then Inl e
          else Inr fs)"
  by pat_completeness auto
termination
proof (relation "measure (\<lambda>(parents, exist_ok, p, fs). 2 * length p + (if parents then 1 else 0))")
  show "wf (measure (\<lambda>(parents, exist_ok, p, fs). 2 * length p + (if parents then 1 else 0)))"
    by simp
next
  fix parents exist_ok :: bool and p :: path and fs :: filesystem and e :: error
  assume "\<not> (\<not> parents \<or> butlast p = p)"
  then have "p \<noteq> []" by auto
  then have "length (butlast p) < length p" by simp
  then show "((True, True, butlast p, fs), (parents, exist_ok, p, fs))
               \<in> measure (\<lambda>(parents, exist_ok, p, fs). 2 * length p + (if parents then 1 else 0))"
    by simp
next
  fix parents exist_ok :: bool and p :: path and fs fs1 :: filesystem and e :: error
  assume "\<not> (\<not> parents \<or> butlast p = p)"
  then show "((False, exist_ok, p, fs1), (parents, exist_ok, p, fs))
               \<in> measure (\<lambda>(parents, exist_ok, p, fs). 2 * length p + (if parents then 1 else 0))"
    by simp
qed

declare mkdir.simps [simp del]

section \<open>The container and its shell\<close>

text \<open>
  What the host does to processes, in the order it does it: the three operations on
  the shell process, and every \<open>subprocess.run\<close> with its working directory.
\<close>

datatype event =
    Stdin_close
  | Terminate
  | Wait
  | Run cmd "path option"

text \<open>
  The state the methods of \<open>DockerContainer\<close> work on. \<open>bash_stdin\<close> holds the text
  written to the remote shell so far, \<open>bash_stdout\<close> the text the shell emits and
  the host has not read yet (followed by end of file), \<open>sys_stdout\<close> the text
  written to the host's standard output, \<open>host_events\<close> the process operations so
  far and \<open>host_fs\<close> the host's file system.
\<close>

record world =
  container_name :: "string option"
  bash_stdin :: string
  bash_stdout :: string
  sys_stdout :: string
  host_events :: "event list"
  host_fs :: filesystem

text \<open>
  \<open>self.bash_stdout.readline()\<close>: the text up to and including the next newline,
  or all that is left when no newline follows; the empty string at end of file.
\<close>

definition readline :: "world \<Rightarrow> string \<times> world" where
  "readline st =
     (let s = bash_stdout st
      in case dropWhile (\<lambda>c. c \<noteq> NL) s of
           [] \<Rightarrow> (s, st\<lparr>bash_stdout := []\<rparr>)
         | _ # rest \<Rightarrow> (takeWhile (\<lambda>c. c \<noteq> NL) s @ [NL], st\<lparr>bash_stdout := rest\<rparr>))"

text \<open>
  \<open>output_io\<close> is a fresh \<open>io.StringIO\<close> when the output is captured, and
  \<open>sys.stdout\<close> otherwise.
\<close>

datatype output_io = StringIO string | SysStdout

fun output_write :: "output_io \<Rightarrow> string \<Rightarrow> world \<Rightarrow> output_io \<times> world" where
  "output_write (StringIO buf) s st = (StringIO (buf @ s), st)"
| "output_write SysStdout s st = (SysStdout, st\<lparr>sys_stdout := sys_stdout st @ s\<rparr>)"

definition footer_offset :: "string \<Rightarrow> string \<Rightarrow> int" where
  "footer_offset line end_of_message =
     int (length line) - 1 - int (length end_of_message) - 4"

definition returncode_str :: "string \<Rightarrow> string \<Rightarrow> string" where
  "returncode_str line end_of_message =
     py_slice line (footer_offset line end_of_message) (footer_offset line end_of_message + 4)"

text \<open>
  The \<open>while True\<close> loop of \<open>call\<close>. It returns the parsed \<open>returncode\<close>, or the
  \<open>ValueError\<close> of \<open>int\<close>; \<open>None\<close> is a loop that never ends.
\<close>

partial_function (option) read_loop ::
  "string \<Rightarrow> output_io \<Rightarrow> world \<Rightarrow> ((error + int) \<times> output_io \<times> world) option"
where
  "read_loop end_of_message output_io st =
     (case readline st of (line, st1) \<Rightarrow>
        if endswith line (end_of_message @ [NL]) then
          (case py_int (returncode_str line end_of_message) of
             None \<Rightarrow> Some (Inl ValueError, output_io, st1)
           | Some returncode \<Rightarrow>
               (case output_write output_io (py_slice line 0 (footer_offset line end_of_message)) st1 of
                  (output_io', st2) \<Rightarrow> Some (Inr returncode, output_io', st2)))
        else
          (case output_write output_io line st1 of
             (output_io', st2) \<Rightarrow> read_loop end_of_message output_io' st2))"

declare read_loop.simps [code]

subsection \<open>\<open>call\<close>\<close>

definition env_exports :: "(string \<times> string) list \<Rightarrow> string" where
  "env_exports env = join [NL] (map (\<lambda>(k, v). ''export '' @ k @ ''='' @ v) env)"

definition chdir :: "string option \<Rightarrow> string" where
  "chdir cwd = (case cwd of None \<Rightarrow> [] | Some d \<Rightarrow> if d = [] then [] else ''cd '' @ d)"

definition command :: "string list \<Rightarrow> string" where
  "command args = join '' '' (map shlex_quote args)"

text \<open>
  The text \<open>call\<close> writes to the shell: a subshell that exports the environment,
  changes the directory, runs the command and prints the footer. The \<open>\n\<close> of the
  \<open>printf\<close> format is a newline of the script itself.
\<close>

definition script :: "(string \<times> string) list \<Rightarrow> string option \<Rightarrow> string list \<Rightarrow> string \<Rightarrow> string" where
  "script env cwd args end_of_message =
     ''('' @ [NL]
     @ replicate 12 CHR '' '' @ env_exports env @ [NL]
     @ replicate 12 CHR '' '' @ chdir cwd @ [NL]
     @ replicate 12 CHR '' '' @ command args @ [NL]
     @ replicate 12 CHR '' '' @ ''printf '' @ [DQ] @ ''%04d%s'' @ [NL, DQ] @ '' $? '' @ end_of_message @ [NL]
     @ replicate 8 CHR '' '' @ '')'' @ [NL]
     @ replicate 8 CHR '' ''"

text \<open>
  \<open>call(args, env, capture_output, cwd)\<close>. The first argument is the value
  \<open>str(uuid.uuid4())\<close> drawn by this call. The result is \<open>None\<close> when the call never
  returns, and otherwise the raised error or the returned text, with the state
  the call leaves.
\<close>

definition call ::
  "string \<Rightarrow> string list \<Rightarrow> (string \<times> string) list \<Rightarrow> bool \<Rightarrow> string option \<Rightarrow>
   world \<Rightarrow> ((error + string) \<times> world) option"
where
  "call end_of_message args env capture_output cwd st =
     (let st1 = st\<lparr>sys_stdout := sys_stdout st @ ''    + '' @ command args @ [NL]\<rparr>;
          st2 = st1\<lparr>bash_stdin := bash_stdin st1 @ script env cwd args end_of_message\<rparr>;
          output_io = (if capture_output then StringIO [] else SysStdout)
      in case read_loop end_of_message output_io st2 of
           None \<Rightarrow> None
         | Some (Inl e, output_io', st3) \<Rightarrow> Some (Inl e, st3)
         | Some (Inr returncode, output_io', st3) \<Rightarrow>
             (let output = (case output_io' of StringIO buf \<Rightarrow> Some buf | SysStdout \<Rightarrow> None)
              in if returncode \<noteq> 0 then
                   Some (Inl (CalledProcessError returncode (Argv args) output), st3)
                 else
                   Some (Inr (case output of
                                None \<Rightarrow> []
                              | Some s \<Rightarrow> if s \<noteq> [] then s else []), st3)))"

text \<open>
  \<open>environment_executor(command, environment)\<close>. \<open>shlex.split\<close> is the library's
  tokenizer: \<open>shlex_split\<close> gives its list of words, or the error it raises.
\<close>

definition environment_executor ::
  "(string \<Rightarrow> error + string list) \<Rightarrow> string \<Rightarrow> string \<Rightarrow> (string \<times> string) list \<Rightarrow>
   world \<Rightarrow> ((error + string) \<times> world) option"
where
  "environment_executor shlex_split end_of_message command_line environment st =
     (case shlex_split command_line of
        Inl e \<Rightarrow> Some (Inl e, st)
      | Inr args \<Rightarrow> call end_of_message args environment False None st)"

subsection \<open>Processes on the host\<close>

text \<open>
  \<open>subprocess.run(cmd, check=..., cwd=...)\<close>, where \<open>returncode\<close> is the exit status
  the process ends with: with \<open>check\<close>, a status other than 0 raises
  \<open>CalledProcessError\<close>.
\<close>

definition subprocess_run ::
  "cmd \<Rightarrow> bool \<Rightarrow> path option \<Rightarrow> int \<Rightarrow> world \<Rightarrow> (error + unit) \<times> world"
where
  "subprocess_run c check cwd returncode st =
     (let st' = st\<lparr>host_events := host_events st @ [Run c cwd]\<rparr>
      in if check \<and> returncode \<noteq> 0 then (Inl (CalledProcessError returncode c None), st')
         else (Inr (), st'))"

text \<open>\<open>f'{self.container_name}'\<close>.\<close>

definition name_str :: "world \<Rightarrow> string" where
  "name_str st = (case container_name st of None \<Rightarrow> ''None'' | Some n \<Rightarrow> n)"

text \<open>
  \<open>__exit__\<close>, where \<open>returncode\<close> is the exit status of \<open>docker rm\<close>. Closing the
  shell's input, terminating the process and waiting for it are recorded and do not
  raise. The argument list of \<open>subprocess.run\<close> must hold strings: a container name
  \<open>None\<close> is a \<open>TypeError\<close>.
\<close>

definition exit_container :: "int \<Rightarrow> world \<Rightarrow> (error + unit) \<times> world" where
  "exit_container returncode st =
     (let st1 = st\<lparr>host_events := host_events st @ [Stdin_close]\<rparr>;
          st2 = st1\<lparr>host_events := host_events st1 @ [Terminate]\<rparr>;
          st3 = st2\<lparr>host_events := host_events st2 @ [Wait]\<rparr>
      in case container_name st3 of
           None \<Rightarrow> (Inl TypeError, st3)
         | Some name \<Rightarrow>
             (case subprocess_run (Argv [''docker'', ''rm'', ''--force'', ''-v'', name]) False None
                     returncode st3 of
                (Inl e, st4) \<Rightarrow> (Inl e, st4)
              | (Inr u, st4) \<Rightarrow> (Inr (), st4\<lparr>container_name := None\<rparr>)))"

text \<open>
  \<open>copy_into(from_path, to_path)\<close>, where \<open>end_of_message\<close> is the token of the
  \<open>call\<close> and \<open>returncode\<close> the exit status of the pipeline.
\<close>

definition copy_into ::
  "string \<Rightarrow> int \<Rightarrow> path \<Rightarrow> path \<Rightarrow> world \<Rightarrow> ((error + unit) \<times> world) option"
where
  "copy_into end_of_message returncode from_path to_path st =
     (if is_dir (host_fs st) from_path then
        (case call end_of_message [''mkdir'', ''-p'', path_str to_path] [] False None st of
           None \<Rightarrow> None
         | Some (Inl e, st1) \<Rightarrow> Some (Inl e, st1)
         | Some (Inr out, st1) \<Rightarrow>
             Some (subprocess_run
                     (Shell (''tar cf - . | docker exec -i '' @ name_str st1 @ '' tar -xC ''
                             @ path_str to_path @ '' -f -''))
                     True (Some from_path) returncode st1))
      else
        Some (subprocess_run
                (Shell (''cat '' @ path_str from_path @ '' | docker exec -i '' @ name_str st
                        @ '' sh -c '' @ [DQ] @ ''cat > '' @ path_str to_path @ [DQ]))
                True None returncode st))"

text \<open>
  \<open>copy_out(from_path, to_path)\<close>, where \<open>returncode\<close> is the exit status of the
  pipeline.
\<close>

definition copy_out :: "int \<Rightarrow> path \<Rightarrow> path \<Rightarrow> world \<Rightarrow> (error + unit) \<times> world" where
  "copy_out returncode from_path to_path st =
     (case mkdir True True to_path (host_fs st) of
        Inl e \<Rightarrow> (Inl e, st)
      | Inr fs' \<Rightarrow>
          subprocess_run
            (Shell (''docker exec -i '' @ name_str st @ '' tar -cC '' @ path_str from_path
                    @ '' -f - . | tar -xf -''))
            True (Some to_path) returncode (st\<lparr>host_fs := fs'\<rparr>))"

section \<open>The footer\<close>

text \<open>
  What the remote shell prints for the statement \<open>printf "%04d%s\n" $? token\<close> of
  the script: the exit status in decimal, padded with zeros on the left to at
  least 4 digits, then the token and a newline.
\<close>

definition digit_char :: "nat \<Rightarrow> char" where
  "digit_char d = char_of (48 + d)"

fun decimal :: "nat \<Rightarrow> string" where
  "decimal n = (if n < 10 then [digit_char n] else decimal (n div 10) @ [digit_char (n mod 10)])"

declare decimal.simps [simp del]

definition printf_04d :: "nat \<Rightarrow> string" where
  "printf_04d n = replicate (4 - length (decimal n)) CHR ''0'' @ decimal n"

definition footer :: "nat \<Rightarrow> string \<Rightarrow> string" where
  "footer status end_of_message = printf_04d status @ end_of_message @ [NL]"

text \<open>The text accumulated on the sink: the buffer, or the host's standard output.\<close>

fun written :: "output_io \<times> world \<Rightarrow> string" where
  "written (StringIO buf, st) = buf"
| "written (SysStdout, st) = sys_stdout st"

text \<open>The text of a list of lines, each given without its newline.\<close>

definition text_lines :: "string list \<Rightarrow> string" where
  "text_lines bs = concat (map (\<lambda>b. b @ [NL]) bs)"

text \<open>A token and a state for the examples.\<close>

abbreviation (input) example_token :: string where
  "example_token \<equiv> ''6f1c2a9e-3b7d-4c58-9a41-0d2e5f8b7c13''"

abbreviation (input) example_world :: "string \<Rightarrow> world" where
  "example_world out \<equiv>
     \<lparr>container_name = Some ''cibuildwheel-0b5e'', bash_stdin = [], bash_stdout = out,
      sys_stdout = [], host_events = [], host_fs = []\<rparr>"

abbreviation (input) example_fs :: filesystem where
  "example_fs \<equiv> [([''src''], Dir), ([''src'', ''setup.py''], File)]"

abbreviation (input) example_host :: "string \<Rightarrow> world" where
  "example_host out \<equiv>
     \<lparr>container_name = Some ''cibuildwheel-0b5e'', bash_stdin = [], bash_stdout = out,
      sys_stdout = [], host_events = [], host_fs = example_fs\<rparr>"

section \<open>Properties\<close>

subsection \<open>Four digits and their value\<close>

lemma of_char_digit_char: "d < 10 \<Longrightarrow> (of_char (digit_char d) :: nat) = 48 + d"
  by (simp add: digit_char_def)

lemma isdigit_digit_char: "d < 10 \<Longrightarrow> isdigit (digit_char d)"
  by (simp add: isdigit_def of_char_digit_char)

lemma isspace_digit_char: "d < 10 \<Longrightarrow> \<not> isspace (digit_char d)"
  by (auto simp add: isspace_def of_char_digit_char)

lemma digit_val_digit_char: "d < 10 \<Longrightarrow> digit_val (digit_char d) = d"
  by (simp add: digit_val_def of_char_digit_char)

lemma digit_char_not_sign:
  assumes "d < 10"
  shows "digit_char d \<noteq> CHR ''+''" and "digit_char d \<noteq> CHR ''-''" and "digit_char d \<noteq> CHR ''_''"
proof -
  have "(of_char (digit_char d) :: nat) \<ge> 48" using assms by (simp add: of_char_digit_char)
  moreover have "(of_char CHR ''+'' :: nat) = 43" "(of_char CHR ''-'' :: nat) = 45" by simp_all
  ultimately show "digit_char d \<noteq> CHR ''+''" "digit_char d \<noteq> CHR ''-''" by auto
  have "(of_char (digit_char d) :: nat) \<le> 57" using assms by (simp add: of_char_digit_char)
  moreover have "(of_char CHR ''_'' :: nat) = 95" by simp
  ultimately show "digit_char d \<noteq> CHR ''_''" by auto
qed

lemma digit_char_0: "digit_char 0 = CHR ''0''"
  unfolding digit_char_def by code_simp

lemma py_int_4_digits:
  assumes "a < 10" "b < 10" "c < 10" "d < 10"
  shows "py_int [digit_char a, digit_char b, digit_char c, digit_char d]
           = Some (int (1000 * a + 100 * b + 10 * c + d))"
  using assms
  by (simp add: py_int_def strip_def int_unsigned_def isspace_digit_char isdigit_digit_char
      digit_val_digit_char digit_char_not_sign)

lemma decimal_lt10: "n < 10 \<Longrightarrow> decimal n = [digit_char n]"
  by (subst decimal.simps) simp

lemma decimal_ge10: "10 \<le> n \<Longrightarrow> decimal n = decimal (n div 10) @ [digit_char (n mod 10)]"
  by (subst decimal.simps) simp

lemma printf_04d_digits:
  assumes "n < 10000"
  shows "printf_04d n = [digit_char (n div 1000), digit_char (n div 100 mod 10),
                         digit_char (n div 10 mod 10), digit_char (n mod 10)]"
proof -
  have z: "replicate 3 CHR ''0'' = ''000''" "replicate 2 CHR ''0'' = ''00''"
    by (simp_all add: numeral_3_eq_3 numeral_2_eq_2)
  consider "n < 10" | "10 \<le> n" "n < 100" | "100 \<le> n" "n < 1000" | "1000 \<le> n" "n < 10000"
    using assms by linarith
  then show ?thesis
  proof cases
    case 1
    then show ?thesis by (simp add: printf_04d_def decimal_lt10 digit_char_0 z)
  next
    case 2
    then have a: "n div 10 < 10" by linarith
    have "decimal n = [digit_char (n div 10), digit_char (n mod 10)]"
      using 2 a by (simp add: decimal_ge10 decimal_lt10)
    moreover have "n div 1000 = 0" "n div 100 = 0" "n div 10 mod 10 = n div 10" using 2 by simp_all
    ultimately show ?thesis by (simp add: printf_04d_def digit_char_0 z)
  next
    case 3
    have e: "n div 10 div 10 = n div 100" by (simp add: div_mult2_eq [symmetric])
    have a: "10 \<le> n div 10" "n div 100 < 10" using 3 by linarith+
    have "decimal n = [digit_char (n div 100), digit_char (n div 10 mod 10), digit_char (n mod 10)]"
      using 3 a by (simp add: decimal_ge10 [of n] decimal_ge10 [of "n div 10"] decimal_lt10 e)
    moreover have "n div 1000 = 0" "n div 100 mod 10 = n div 100" using 3 a by simp_all
    ultimately show ?thesis by (simp add: printf_04d_def digit_char_0)
  next
    case 4
    have e: "n div 10 div 10 = n div 100" "n div 100 div 10 = n div 1000"
      by (simp_all add: div_mult2_eq [symmetric])
    have a: "10 \<le> n div 10" "10 \<le> n div 100" "n div 1000 < 10" using 4 by linarith+
    have "decimal n = [digit_char (n div 1000), digit_char (n div 100 mod 10),
                       digit_char (n div 10 mod 10), digit_char (n mod 10)]"
      using 4 a
      by (simp add: decimal_ge10 [of n] decimal_ge10 [of "n div 10"] decimal_ge10 [of "n div 100"]
          decimal_lt10 e)
    then show ?thesis by (simp add: printf_04d_def)
  qed
qed

lemma digits_sum:
  "1000 * (n div 1000) + 100 * (n div 100 mod 10) + 10 * (n div 10 mod 10) + n mod 10 = (n::nat)"
proof -
  define q1 q2 q3 r0 r1 r2 where "q1 = n div 10" and "q2 = n div 100" and "q3 = n div 1000"
    and "r0 = n mod 10" and "r1 = q1 mod 10" and "r2 = q2 mod 10"
  have e: "q1 div 10 = q2" "q2 div 10 = q3"
    by (simp_all add: q1_def q2_def q3_def div_mult2_eq [symmetric])
  have a: "n = 10 * q1 + r0" by (simp add: q1_def r0_def)
  have b: "q1 = 10 * q2 + r1" unfolding r1_def e [symmetric] by simp
  have c: "q2 = 10 * q3 + r2" unfolding r2_def e [symmetric] by simp
  have "1000 * q3 + 100 * r2 + 10 * r1 + r0 = n" using a b c by linarith
  then show ?thesis by (simp add: q1_def q2_def q3_def r0_def r1_def r2_def)
qed

lemma py_int_printf_04d:
  assumes "n < 10000"
  shows "py_int (printf_04d n) = Some (int n)"
proof -
  have "n div 1000 < 10" using assms by linarith
  then show ?thesis
    using assms by (simp only: printf_04d_digits py_int_4_digits mod_less_divisor zero_less_numeral digits_sum)
qed

subsection \<open>The read loop\<close>

lemma endswith_append: "endswith (a @ suf) suf"
  by (simp add: endswith_def)

lemma endswith_iff: "endswith s suf \<longleftrightarrow> (\<exists>a. s = a @ suf)"
proof
  assume "endswith s suf"
  then have "s = take (length s - length suf) s @ suf"
    by (metis append_take_drop_id endswith_def)
  then show "\<exists>a. s = a @ suf" ..
next
  assume "\<exists>a. s = a @ suf"
  then show "endswith s suf" by (auto simp: endswith_append)
qed

lemma footer_offset_line:
  "length d4 = 4 \<Longrightarrow> footer_offset (pre @ d4 @ eom @ [NL]) eom = int (length pre)"
  by (simp add: footer_offset_def)

lemma returncode_str_line:
  "length d4 = 4 \<Longrightarrow> returncode_str (pre @ d4 @ eom @ [NL]) eom = d4"
  by (simp add: returncode_str_def footer_offset_line py_slice_def slice_index_def)

lemma output_line:
  "length d4 = 4 \<Longrightarrow>
   py_slice (pre @ d4 @ eom @ [NL]) 0 (footer_offset (pre @ d4 @ eom @ [NL]) eom) = pre"
  by (simp add: footer_offset_line py_slice_def slice_index_def)

lemma readline_line:
  assumes "NL \<notin> set b"
  shows "readline (st\<lparr>bash_stdout := b @ NL # rest\<rparr>) = (b @ [NL], st\<lparr>bash_stdout := rest\<rparr>)"
proof -
  have b: "\<And>x. x \<in> set b \<Longrightarrow> x \<noteq> NL" using assms by auto
  have "dropWhile (\<lambda>c. c \<noteq> NL) (b @ NL # rest) = NL # rest"
    using b by (simp add: dropWhile_append2)
  moreover have "takeWhile (\<lambda>c. c \<noteq> NL) (b @ NL # rest) = b"
    using b by (simp add: takeWhile_append2)
  ultimately show ?thesis by (simp add: readline_def)
qed

lemma written_output_write: "written (output_write oio s st) = written (oio, st) @ s"
  by (cases oio) simp_all

lemma output_write_append:
  "output_write oio (a @ b) st = (case output_write oio a st of (oio', st') \<Rightarrow> output_write oio' b st')"
  by (cases oio) simp_all

lemma output_write_stdout:
  "output_write oio s (st\<lparr>bash_stdout := r\<rparr>) =
     (case output_write oio s st of (oio', st') \<Rightarrow> (oio', st'\<lparr>bash_stdout := r\<rparr>))"
  by (cases oio) simp_all

lemma output_write_Nil: "output_write oio [] st = (oio, st)"
  by (cases oio) simp_all

lemma read_loop_skip:
  assumes "NL \<notin> set b" and "\<not> endswith (b @ [NL]) (eom @ [NL])"
  shows "read_loop eom oio (st\<lparr>bash_stdout := b @ NL # rest\<rparr>) =
           (case output_write oio (b @ [NL]) (st\<lparr>bash_stdout := rest\<rparr>) of
              (oio', st') \<Rightarrow> read_loop eom oio' st')"
  using assms by (subst read_loop.simps) (simp add: readline_line)

lemma read_loop_footer:
  assumes "NL \<notin> set b" and "endswith (b @ [NL]) (eom @ [NL])"
  shows "read_loop eom oio (st\<lparr>bash_stdout := b @ NL # rest\<rparr>) =
           (case py_int (returncode_str (b @ [NL]) eom) of
              None \<Rightarrow> Some (Inl ValueError, oio, st\<lparr>bash_stdout := rest\<rparr>)
            | Some returncode \<Rightarrow>
                Some (Inr returncode,
                  output_write oio (py_slice (b @ [NL]) 0 (footer_offset (b @ [NL]) eom))
                    (st\<lparr>bash_stdout := rest\<rparr>)))"
  using assms by (subst read_loop.simps) (simp add: readline_line split: option.splits prod.splits)

lemma read_loop_skip_lines:
  assumes "\<forall>b \<in> set bs. NL \<notin> set b \<and> \<not> endswith (b @ [NL]) (eom @ [NL])"
  shows "read_loop eom oio (st\<lparr>bash_stdout := text_lines bs @ rest\<rparr>) =
           (case output_write oio (text_lines bs) (st\<lparr>bash_stdout := rest\<rparr>) of
              (oio', st') \<Rightarrow> read_loop eom oio' st')"
  using assms
proof (induction bs arbitrary: oio st)
  case Nil
  then show ?case by (simp add: text_lines_def output_write_Nil)
next
  case (Cons b bs)
  have t: "text_lines (b # bs) = (b @ [NL]) @ text_lines bs" by (simp add: text_lines_def)
  obtain o1 s1 where w: "output_write oio (b @ [NL]) st = (o1, s1)" by (cases "output_write oio (b @ [NL]) st")
  have "read_loop eom oio (st\<lparr>bash_stdout := text_lines (b # bs) @ rest\<rparr>)
        = read_loop eom o1 (s1\<lparr>bash_stdout := text_lines bs @ rest\<rparr>)"
    using Cons.prems w by (simp add: t read_loop_skip output_write_stdout)
  also have "\<dots> = (case output_write o1 (text_lines bs) (s1\<lparr>bash_stdout := rest\<rparr>) of
              (oio', st') \<Rightarrow> read_loop eom oio' st')"
    using Cons.prems by (intro Cons.IH) simp
  also have "\<dots> = (case output_write oio (text_lines (b # bs)) (st\<lparr>bash_stdout := rest\<rparr>) of
              (oio', st') \<Rightarrow> read_loop eom oio' st')"
    unfolding t output_write_append [of oio "b @ [NL]"] using w
    by (simp add: output_write_stdout)
  finally show ?case .
qed

lemma read_loop_lines_footer:
  assumes "\<forall>b \<in> set bs. NL \<notin> set b \<and> \<not> endswith (b @ [NL]) (eom @ [NL])"
    and "NL \<notin> set b" and "endswith (b @ [NL]) (eom @ [NL])"
  shows "read_loop eom oio (st\<lparr>bash_stdout := text_lines bs @ b @ NL # rest\<rparr>) =
           (case py_int (returncode_str (b @ [NL]) eom) of
              None \<Rightarrow> Some (Inl ValueError, output_write oio (text_lines bs) (st\<lparr>bash_stdout := rest\<rparr>))
            | Some returncode \<Rightarrow>
                Some (Inr returncode,
                  output_write oio (text_lines bs @ py_slice (b @ [NL]) 0 (footer_offset (b @ [NL]) eom))
                    (st\<lparr>bash_stdout := rest\<rparr>)))"
proof -
  obtain o1 s1 where w: "output_write oio (text_lines bs) st = (o1, s1)"
    by (cases "output_write oio (text_lines bs) st")
  have "read_loop eom oio (st\<lparr>bash_stdout := text_lines bs @ b @ NL # rest\<rparr>)
          = read_loop eom o1 (s1\<lparr>bash_stdout := b @ NL # rest\<rparr>)"
    using assms(1) w by (simp add: read_loop_skip_lines output_write_stdout)
  then show ?thesis
    using assms(2,3) w
    by (simp add: read_loop_footer output_write_append output_write_stdout split: option.splits)
qed

lemma digit_char_not_NL: "d < 10 \<Longrightarrow> digit_char d \<noteq> NL"
proof -
  assume "d < 10"
  then have "(of_char (digit_char d) :: nat) = 48 + d" by (rule of_char_digit_char)
  moreover have "(of_char NL :: nat) = 10" by simp
  ultimately show ?thesis by auto
qed

lemma length_printf_04d: "n < 10000 \<Longrightarrow> length (printf_04d n) = 4"
  by (simp add: printf_04d_digits)

lemma NL_notin_printf_04d: "n < 10000 \<Longrightarrow> NL \<notin> set (printf_04d n)"
proof -
  assume n: "n < 10000"
  then have "n div 1000 < 10" by linarith
  with n show ?thesis
    by (simp add: printf_04d_digits digit_char_not_NL [THEN not_sym])
qed

lemma readline_cases:
  obtains (line) b rest where "bash_stdout st = b @ NL # rest" and "NL \<notin> set b"
      and "readline st = (b @ [NL], st\<lparr>bash_stdout := rest\<rparr>)"
    | (eof) "NL \<notin> set (bash_stdout st)"
      and "readline st = (bash_stdout st, st\<lparr>bash_stdout := []\<rparr>)"
proof (cases "NL \<in> set (bash_stdout st)")
  case True
  then obtain b rest where s: "bash_stdout st = b @ NL # rest" and b: "NL \<notin> set b"
    by (meson split_list_first)
  have "readline (st\<lparr>bash_stdout := b @ NL # rest\<rparr>) = (b @ [NL], st\<lparr>bash_stdout := rest\<rparr>)"
    using b by (rule readline_line)
  moreover have "st\<lparr>bash_stdout := b @ NL # rest\<rparr> = st" using s by simp
  ultimately show ?thesis using s b line by simp
next
  case False
  then have d: "dropWhile (\<lambda>c. c \<noteq> NL) (bash_stdout st) = []" by auto
  have "readline st = (bash_stdout st, st\<lparr>bash_stdout := []\<rparr>)"
    by (simp only: readline_def Let_def d list.case)
  with False show ?thesis by (rule eof)
qed

lemma endswith_NL: "endswith s (eom @ [NL]) \<Longrightarrow> NL \<in> set s"
  by (auto simp: endswith_iff)

lemma read_loop_Some_footer_line:
  assumes "read_loop eom oio st = Some y"
  shows "\<exists>bs b rest. bash_stdout st = text_lines bs @ b @ NL # rest
        \<and> (\<forall>x \<in> set bs. NL \<notin> set x \<and> \<not> endswith (x @ [NL]) (eom @ [NL]))
        \<and> NL \<notin> set b \<and> endswith (b @ [NL]) (eom @ [NL])"
proof -
  let ?P = "\<lambda>(eom :: string) (oio :: output_io) (st :: world)
      (y :: (error + int) \<times> output_io \<times> world).
      \<exists>bs b rest. bash_stdout st = text_lines bs @ b @ NL # rest
        \<and> (\<forall>x \<in> set bs. NL \<notin> set x \<and> \<not> endswith (x @ [NL]) (eom @ [NL]))
        \<and> NL \<notin> set b \<and> endswith (b @ [NL]) (eom @ [NL])"
  have "?P eom oio st y"
  proof (rule read_loop.raw_induct [where P = ?P, OF _ assms], goal_cases)
  case (1 read_loop' eom oio st y)
  show ?case
  proof (cases st rule: readline_cases)
    case (line b rest)
    show ?thesis
    proof (cases "endswith (b @ [NL]) (eom @ [NL])")
      case True
      have "bash_stdout st = text_lines [] @ b @ NL # rest" using line by (simp add: text_lines_def)
      with line True show ?thesis
        by (rule_tac x = "[]" in exI, rule_tac x = b in exI, rule_tac x = rest in exI) simp
    next
      case False
      obtain o2 s2 where w: "output_write oio (b @ [NL]) (st\<lparr>bash_stdout := rest\<rparr>) = (o2, s2)"
        by (cases "output_write oio (b @ [NL]) (st\<lparr>bash_stdout := rest\<rparr>)")
      then have s2: "bash_stdout s2 = rest" by (cases oio) auto
      have "read_loop' eom o2 s2 = Some y" using 1(2) line False w by simp
      then obtain bs b' rest' where r: "bash_stdout s2 = text_lines bs @ b' @ NL # rest'"
        "\<forall>x \<in> set bs. NL \<notin> set x \<and> \<not> endswith (x @ [NL]) (eom @ [NL])"
        "NL \<notin> set b'" "endswith (b' @ [NL]) (eom @ [NL])"
        using 1(1) [of eom o2 s2 y] by auto
      have "bash_stdout st = text_lines (b # bs) @ b' @ NL # rest'"
        using line r(1) s2 by (simp add: text_lines_def)
      moreover have "\<forall>x \<in> set (b # bs). NL \<notin> set x \<and> \<not> endswith (x @ [NL]) (eom @ [NL])"
        using r(2) line False by simp
      ultimately show ?thesis using r(3,4)
        by (rule_tac x = "b # bs" in exI, rule_tac x = b' in exI, rule_tac x = rest' in exI) simp
    qed
  next
    case eof
    then have ne: "\<not> endswith (bash_stdout st) (eom @ [NL])" using endswith_NL by blast
    obtain o2 s2 where w: "output_write oio (bash_stdout st) (st\<lparr>bash_stdout := []\<rparr>) = (o2, s2)"
      by (cases "output_write oio (bash_stdout st) (st\<lparr>bash_stdout := []\<rparr>)")
    then have s2: "bash_stdout s2 = []" by (cases oio) auto
    have "read_loop' eom o2 s2 = Some y" using 1(2) eof ne w by simp
    then obtain bs b' rest' where r: "bash_stdout s2 = text_lines bs @ b' @ NL # rest'"
      using 1(1) [of eom o2 s2 y] by auto
    with s2 show ?thesis by simp
  qed
  qed
  then show ?thesis .
qed

text \<open>Without a line that ends with the token the loop never ends: at end of file
  \<open>readline\<close> returns the empty string again and again.\<close>

lemma read_loop_eof:
  assumes "bash_stdout st = []"
  shows "read_loop eom oio st = None"
proof (cases "read_loop eom oio st")
  case None
  then show ?thesis .
next
  case (Some y)
  then obtain bs b rest where "bash_stdout st = text_lines bs @ b @ NL # rest"
    using read_loop_Some_footer_line by blast
  with assms show ?thesis by simp
qed

lemma py_int_Nil: "py_int [] = None"
  by (simp add: py_int_def strip_def)

lemma returncode_str_short:
  assumes "length a < 4" and "3 \<le> length eom"
  shows "returncode_str (a @ eom @ [NL]) eom = []"
  using assms by (simp add: returncode_str_def footer_offset_def py_slice_def slice_index_def)

lemma read_loop_result:
  assumes "read_loop eom oio st = Some (r, oio', st')"
  obtains bs b where
    "bash_stdout st = text_lines bs @ b @ eom @ NL # bash_stdout st'"
    and "\<forall>x \<in> set bs. NL \<notin> set x \<and> \<not> endswith (x @ [NL]) (eom @ [NL])"
    and "NL \<notin> set (b @ eom)"
    and "r = (case py_int (returncode_str (b @ eom @ [NL]) eom) of
                None \<Rightarrow> Inl ValueError | Some returncode \<Rightarrow> Inr returncode)"
    and "(oio', st') =
           output_write oio
             (text_lines bs @
              (case py_int (returncode_str (b @ eom @ [NL]) eom) of
                 None \<Rightarrow> []
               | Some returncode \<Rightarrow> py_slice (b @ eom @ [NL]) 0 (footer_offset (b @ eom @ [NL]) eom)))
             (st\<lparr>bash_stdout := bash_stdout st'\<rparr>)"
proof -
  obtain bs c rest where s: "bash_stdout st = text_lines bs @ c @ NL # rest"
    and bs: "\<forall>x \<in> set bs. NL \<notin> set x \<and> \<not> endswith (x @ [NL]) (eom @ [NL])"
    and c: "NL \<notin> set c" "endswith (c @ [NL]) (eom @ [NL])"
    using read_loop_Some_footer_line [OF assms] by blast
  obtain b where "c @ [NL] = b @ eom @ [NL]" using c(2) by (auto simp: endswith_iff)
  then have b: "c = b @ eom" by simp
  have st: "st\<lparr>bash_stdout := text_lines bs @ c @ NL # rest\<rparr> = st" using s by simp
  have r: "read_loop eom oio st =
           (case py_int (returncode_str (c @ [NL]) eom) of
              None \<Rightarrow> Some (Inl ValueError, output_write oio (text_lines bs) (st\<lparr>bash_stdout := rest\<rparr>))
            | Some returncode \<Rightarrow>
                Some (Inr returncode,
                  output_write oio (text_lines bs @ py_slice (c @ [NL]) 0 (footer_offset (c @ [NL]) eom))
                    (st\<lparr>bash_stdout := rest\<rparr>)))"
    using read_loop_lines_footer [OF bs c, where oio = oio and st = st and rest = rest] st by simp
  have bo: "bash_stdout (snd (output_write oio x (st\<lparr>bash_stdout := rest\<rparr>))) = rest" for x
    by (cases oio) simp_all
  show ?thesis
  proof (cases "py_int (returncode_str (c @ [NL]) eom)")
    case None
    with r assms have e: "r = Inl ValueError"
      "(oio', st') = output_write oio (text_lines bs) (st\<lparr>bash_stdout := rest\<rparr>)" by simp_all
    have rest: "bash_stdout st' = rest" using bo [of "text_lines bs"] e(2) by (metis snd_conv)
    show ?thesis
      using s bs c(1) e None unfolding b rest [symmetric]
      by (intro that [of bs b]) simp_all
  next
    case (Some returncode)
    with r assms have e: "r = Inr returncode"
      "(oio', st') = output_write oio (text_lines bs @ py_slice (c @ [NL]) 0 (footer_offset (c @ [NL]) eom))
                    (st\<lparr>bash_stdout := rest\<rparr>)" by simp_all
    have rest: "bash_stdout st' = rest"
      using bo [of "text_lines bs @ py_slice (c @ [NL]) 0 (footer_offset (c @ [NL]) eom)"] e(2)
      by (metis snd_conv)
    show ?thesis
      using s bs c(1) e Some unfolding b rest [symmetric]
      by (intro that [of bs b]) simp_all
  qed
qed

lemma read_loop_status_shape:
  assumes "read_loop eom oio st = Some (Inr returncode, oio', st')" and "3 \<le> length eom"
  shows "\<exists>bs pre d4.
           bash_stdout st = text_lines bs @ pre @ d4 @ eom @ [NL] @ bash_stdout st'
         \<and> NL \<notin> set pre \<and> length d4 = 4 \<and> py_int d4 = Some returncode
         \<and> written (oio', st') = written (oio, st) @ text_lines bs @ pre"
proof -
  obtain bs b where s: "bash_stdout st = text_lines bs @ b @ eom @ NL # bash_stdout st'"
    and nl: "NL \<notin> set (b @ eom)"
    and r: "Inr returncode = (case py_int (returncode_str (b @ eom @ [NL]) eom) of
                None \<Rightarrow> Inl ValueError | Some returncode \<Rightarrow> Inr returncode)"
    and y: "(oio', st') =
           output_write oio
             (text_lines bs @
              (case py_int (returncode_str (b @ eom @ [NL]) eom) of
                 None \<Rightarrow> []
               | Some returncode \<Rightarrow> py_slice (b @ eom @ [NL]) 0 (footer_offset (b @ eom @ [NL]) eom)))
             (st\<lparr>bash_stdout := bash_stdout st'\<rparr>)"
    using read_loop_result [OF assms(1)] by blast
  have p: "py_int (returncode_str (b @ eom @ [NL]) eom) = Some returncode"
    using r by (simp split: option.splits)
  have "\<not> length b < 4"
  proof
    assume "length b < 4"
    then have "returncode_str (b @ eom @ [NL]) eom = []" using assms(2) by (rule returncode_str_short)
    with p show False by (simp add: py_int_Nil)
  qed
  then have len: "length (drop (length b - 4) b) = 4" by simp
  define pre d4 where "pre = take (length b - 4) b" and "d4 = drop (length b - 4) b"
  have b: "b = pre @ d4" and d4: "length d4 = 4" using len by (simp_all add: pre_def d4_def)
  have w: "(oio', st') = output_write oio (text_lines bs @ pre) (st\<lparr>bash_stdout := bash_stdout st'\<rparr>)"
    using y p d4 by (simp add: b output_line)
  have "written (oio', st') = written (oio, st) @ text_lines bs @ pre"
    unfolding w written_output_write by (cases oio) simp_all
  moreover have "py_int d4 = Some returncode" using p d4 by (simp add: b returncode_str_line)
  moreover have "NL \<notin> set pre" using nl b by simp
  ultimately show ?thesis using s d4 b by auto
qed

subsection \<open>\<open>call\<close> and its loop\<close>

lemma call_unfold:
  "call eom args env capture_output cwd st =
     (case read_loop eom (if capture_output then StringIO [] else SysStdout)
             (st\<lparr>sys_stdout := sys_stdout st @ ''    + '' @ command args @ [NL],
                 bash_stdin := bash_stdin st @ script env cwd args eom\<rparr>) of
        None \<Rightarrow> None
      | Some (r, oio', st3) \<Rightarrow>
          Some (case r of
                  Inl e \<Rightarrow> Inl e
                | Inr returncode \<Rightarrow>
                    if returncode \<noteq> 0 then
                      Inl (CalledProcessError returncode (Argv args)
                             (case oio' of StringIO buf \<Rightarrow> Some buf | SysStdout \<Rightarrow> None))
                    else Inr (case oio' of StringIO buf \<Rightarrow> buf | SysStdout \<Rightarrow> []), st3))"
  unfolding call_def Let_def
  by (simp split: option.split sum.split prod.split output_io.split)

lemma read_loop_keeps_sink:
  assumes "read_loop eom oio st = Some (r, oio', st')"
  shows "oio' = (case oio of StringIO buf \<Rightarrow> StringIO (written (oio', st')) | SysStdout \<Rightarrow> SysStdout)"
proof -
  obtain x where "(oio', st') = output_write oio x (st\<lparr>bash_stdout := bash_stdout st'\<rparr>)"
    using read_loop_result [OF assms] by blast
  then show ?thesis by (cases oio) auto
qed

lemma read_loop_other_sink:
  assumes "read_loop eom (StringIO buf) st = Some (r, oio', st')"
  shows "\<exists>x. oio' = StringIO (buf @ x)
           \<and> read_loop eom SysStdout st = Some (r, SysStdout, st'\<lparr>sys_stdout := sys_stdout st' @ x\<rparr>)"
  using assms
proof (rule read_loop_result)
  fix bs b
  let ?x = "text_lines bs @
              (case py_int (returncode_str (b @ eom @ [NL]) eom) of
                 None \<Rightarrow> []
               | Some returncode \<Rightarrow> py_slice (b @ eom @ [NL]) 0 (footer_offset (b @ eom @ [NL]) eom))"
  assume s: "bash_stdout st = text_lines bs @ b @ eom @ NL # bash_stdout st'"
    and bs: "\<forall>x \<in> set bs. NL \<notin> set x \<and> \<not> endswith (x @ [NL]) (eom @ [NL])"
    and nl: "NL \<notin> set (b @ eom)"
    and r: "r = (case py_int (returncode_str (b @ eom @ [NL]) eom) of
                None \<Rightarrow> Inl ValueError | Some returncode \<Rightarrow> Inr returncode)"
    and w: "(oio', st') = output_write (StringIO buf) ?x (st\<lparr>bash_stdout := bash_stdout st'\<rparr>)"
  have o: "oio' = StringIO (buf @ ?x)" and st': "st' = st\<lparr>bash_stdout := bash_stdout st'\<rparr>"
    using w by simp_all
  have ew: "endswith ((b @ eom) @ [NL]) (eom @ [NL])"
    using endswith_append [of b "eom @ [NL]"] by simp
  have st: "st\<lparr>bash_stdout := text_lines bs @ (b @ eom) @ NL # bash_stdout st'\<rparr> = st"
    using s by simp
  have "read_loop eom SysStdout st
          = Some (r, SysStdout, st\<lparr>bash_stdout := bash_stdout st', sys_stdout := sys_stdout st @ ?x\<rparr>)"
    using read_loop_lines_footer [OF bs nl ew, where oio = SysStdout and st = st
        and rest = "bash_stdout st'"]
    unfolding st r by (simp split: option.splits)
  moreover have "st\<lparr>bash_stdout := bash_stdout st', sys_stdout := sys_stdout st @ ?x\<rparr>
                   = st'\<lparr>sys_stdout := sys_stdout st' @ ?x\<rparr>"
    by (subst (2 3) st') simp
  ultimately show ?thesis using o by simp
qed

lemma read_loop_sys_stdout:
  assumes "read_loop eom (StringIO buf) st = Some (r, oio', st')"
  shows "sys_stdout st' = sys_stdout st"
  using assms
proof (rule read_loop_result)
  fix x
  assume "(oio', st') = output_write (StringIO buf) x (st\<lparr>bash_stdout := bash_stdout st'\<rparr>)"
  then have "st' = st\<lparr>bash_stdout := bash_stdout st'\<rparr>" by simp
  then have "sys_stdout st' = sys_stdout (st\<lparr>bash_stdout := bash_stdout st'\<rparr>)"
    by (rule arg_cong)
  then show ?thesis by simp
qed

lemma read_loop_frame:
  assumes "read_loop eom oio st = Some (r, oio', st')"
  shows "container_name st' = container_name st \<and> bash_stdin st' = bash_stdin st
       \<and> host_events st' = host_events st \<and> host_fs st' = host_fs st"
  using assms
proof (rule read_loop_result)
  fix x
  assume "(oio', st') = output_write oio x (st\<lparr>bash_stdout := bash_stdout st'\<rparr>)"
  then have "st' = snd (output_write oio x (st\<lparr>bash_stdout := bash_stdout st'\<rparr>))"
    by (metis snd_conv)
  then have "container_name st' = container_name (snd (output_write oio x (st\<lparr>bash_stdout := bash_stdout st'\<rparr>)))"
    "bash_stdin st' = bash_stdin (snd (output_write oio x (st\<lparr>bash_stdout := bash_stdout st'\<rparr>)))"
    "host_events st' = host_events (snd (output_write oio x (st\<lparr>bash_stdout := bash_stdout st'\<rparr>)))"
    "host_fs st' = host_fs (snd (output_write oio x (st\<lparr>bash_stdout := bash_stdout st'\<rparr>)))"
    by (rule arg_cong)+
  then show ?thesis by (cases oio) simp_all
qed

lemma call_frame:
  assumes "call eom args env capture_output cwd st = Some (res, st')"
  shows "container_name st' = container_name st
       \<and> bash_stdin st' = bash_stdin st @ script env cwd args eom
       \<and> host_events st' = host_events st \<and> host_fs st' = host_fs st"
proof -
  let ?st2 = "st\<lparr>sys_stdout := sys_stdout st @ ''    + '' @ command args @ [NL],
                 bash_stdin := bash_stdin st @ script env cwd args eom\<rparr>"
  let ?oio = "if capture_output then StringIO [] else SysStdout"
  have "read_loop eom ?oio ?st2 \<noteq> None"
    using assms unfolding call_unfold by (cases "read_loop eom ?oio ?st2") simp_all
  then obtain r oio' st3 where y: "read_loop eom ?oio ?st2 = Some (r, oio', st3)"
    by (cases "read_loop eom ?oio ?st2") auto
  have "st3 = st'" using assms unfolding call_unfold y by simp
  with read_loop_frame [OF y] show ?thesis by simp
qed

lemma call_no_capture_returns_empty:
  assumes "call eom args env False cwd st = Some (Inr out, st')"
  shows "out = []"
proof -
  let ?st2 = "st\<lparr>sys_stdout := sys_stdout st @ ''    + '' @ command args @ [NL],
                 bash_stdin := bash_stdin st @ script env cwd args eom\<rparr>"
  have "read_loop eom SysStdout ?st2 \<noteq> None"
    using assms unfolding call_unfold if_False by (cases "read_loop eom SysStdout ?st2") simp_all
  then obtain r oio' st3 where y: "read_loop eom SysStdout ?st2 = Some (r, oio', st3)"
    by (cases "read_loop eom SysStdout ?st2") auto
  have o: "oio' = SysStdout" using read_loop_keeps_sink [OF y] by simp
  show ?thesis using assms unfolding call_unfold if_False y o
    by (cases r) (simp_all split: if_splits)
qed

lemma environment_executor_output_empty:
  assumes "environment_executor shlex_split eom command_line environment st = Some (Inr out, st')"
  shows "out = []"
proof (cases "shlex_split command_line")
  case (Inl e)
  with assms show ?thesis by (simp add: environment_executor_def)
next
  case (Inr args)
  with assms have "call eom args environment False None st = Some (Inr out, st')"
    by (simp add: environment_executor_def)
  then show ?thesis by (rule call_no_capture_returns_empty)
qed

subsection \<open>Making directories\<close>

lemma stat_Nil: "stat fs [] = Inr Dir"
  by (simp add: stat.simps)

lemma stat_snoc:
  "stat fs (q @ [c]) =
     (case stat fs q of
        Inl e \<Rightarrow> Inl e
      | Inr File \<Rightarrow> Inl NotADirectoryError
      | Inr Dir \<Rightarrow> (case map_of fs (q @ [c]) of None \<Rightarrow> Inl FileNotFoundError | Some n \<Rightarrow> Inr n))"
  by (subst stat.simps) simp

lemma is_dir_Nil: "is_dir fs []"
  by (simp add: is_dir_def stat_Nil)

lemma is_dir_snoc: "is_dir fs (q @ [c]) \<longleftrightarrow> is_dir fs q \<and> map_of fs (q @ [c]) = Some Dir"
  by (auto simp: is_dir_def stat_snoc split: sum.splits node.splits option.splits)

lemma is_dir_prefix: "is_dir fs p \<Longrightarrow> prefix q p \<Longrightarrow> is_dir fs q"
proof (induction p rule: rev_induct)
  case Nil
  then show ?case by simp
next
  case (snoc c p)
  then show ?case by (auto simp: is_dir_snoc)
qed

lemma node_not_File: "n \<noteq> File \<Longrightarrow> n = Dir"
  by (cases n) simp_all

lemma stat_no_file:
  assumes "\<forall>q \<in> set (prefixes p). map_of fs q \<noteq> Some File"
  shows "stat fs p = Inr Dir \<or> stat fs p = Inl FileNotFoundError"
  using assms
proof (induction p rule: rev_induct)
  case Nil
  then show ?case by (simp add: stat_Nil)
next
  case (snoc c p)
  then have "stat fs p = Inr Dir \<or> stat fs p = Inl FileNotFoundError" by simp
  moreover have "map_of fs (p @ [c]) \<noteq> Some File" using snoc.prems by simp
  ultimately show ?case
    by (auto simp: stat_snoc split: option.splits node.splits dest: node_not_File)
qed

lemma os_mkdir_Nil: "os_mkdir fs [] = Inl FileExistsError"
  by (simp add: os_mkdir_def)

lemma os_mkdir_snoc:
  "os_mkdir fs (q @ [c]) =
     (case stat fs q of
        Inl e \<Rightarrow> Inl e
      | Inr File \<Rightarrow> Inl NotADirectoryError
      | Inr Dir \<Rightarrow> (case map_of fs (q @ [c]) of None \<Rightarrow> Inr ((q @ [c], Dir) # fs)
                   | Some n \<Rightarrow> Inl FileExistsError))"
  by (simp add: os_mkdir_def)

lemma mkdir_Nil: "mkdir parents True [] fs = Inr fs"
  by (subst mkdir.simps) (simp add: os_mkdir_Nil is_dir_Nil)

lemma mkdir_existing: "is_dir fs p \<Longrightarrow> mkdir parents True p fs = Inr fs"
proof (cases p rule: rev_cases)
  case Nil
  then show ?thesis by (simp add: mkdir_Nil)
next
  case (snoc q c)
  assume "is_dir fs p"
  then have d: "is_dir fs (q @ [c])" using snoc by simp
  then have "os_mkdir fs (q @ [c]) = Inl FileExistsError"
    by (simp add: os_mkdir_snoc is_dir_snoc) (simp add: is_dir_def)
  then show ?thesis unfolding snoc using d by (subst mkdir.simps) simp
qed

lemma is_dir_Cons:
  assumes "map_of fs p = None" and "is_dir fs q"
  shows "is_dir ((p, Dir) # fs) q"
  using assms(2)
proof (induction q rule: rev_induct)
  case Nil
  then show ?case by (simp add: is_dir_Nil)
next
  case (snoc c q)
  then show ?case using assms(1) by (auto simp: is_dir_snoc)
qed

lemma mkdir_parent_is_dir:
  assumes "is_dir fs q" and "map_of fs (q @ [c]) \<noteq> Some File"
  shows "\<exists>fs'. mkdir parents True (q @ [c]) fs = Inr fs' \<and> is_dir fs' (q @ [c])
           \<and> (\<forall>r. is_dir fs r \<longrightarrow> is_dir fs' r)
           \<and> (\<forall>r. map_of fs' r = map_of fs r \<or> map_of fs' r = Some Dir)"
proof (cases "map_of fs (q @ [c])")
  case None
  have s: "stat fs q = Inr Dir" using assms(1) by (simp add: is_dir_def)
  have "mkdir parents True (q @ [c]) fs = Inr ((q @ [c], Dir) # fs)"
    by (subst mkdir.simps) (simp add: os_mkdir_snoc s None)
  moreover have "is_dir ((q @ [c], Dir) # fs) (q @ [c])"
    using is_dir_Cons [OF None assms(1)] by (simp add: is_dir_snoc)
  moreover have "\<forall>r. is_dir fs r \<longrightarrow> is_dir ((q @ [c], Dir) # fs) r"
    using is_dir_Cons [OF None] by blast
  ultimately show ?thesis by simp
next
  case (Some n)
  with assms(2) have "n = Dir" by (simp add: node_not_File)
  with Some assms(1) have "is_dir fs (q @ [c])" by (simp add: is_dir_snoc)
  then have "mkdir parents True (q @ [c]) fs = Inr fs \<and> is_dir fs (q @ [c])"
    by (simp add: mkdir_existing)
  then show ?thesis by simp
qed

lemma mkdir_parents:
  assumes "\<forall>q \<in> set (prefixes p). map_of fs q \<noteq> Some File"
  shows "\<exists>fs'. mkdir True True p fs = Inr fs' \<and> is_dir fs' p
           \<and> (\<forall>r. is_dir fs r \<longrightarrow> is_dir fs' r)
           \<and> (\<forall>r. map_of fs' r = map_of fs r \<or> map_of fs' r = Some Dir)"
  using assms
proof (induction p arbitrary: fs rule: rev_induct)
  case Nil
  then show ?case by (simp add: mkdir_Nil is_dir_Nil)
next
  case (snoc c q)
  have nf: "map_of fs (q @ [c]) \<noteq> Some File" using snoc.prems by simp
  have pq: "\<forall>r \<in> set (prefixes q). map_of fs r \<noteq> Some File" using snoc.prems by simp
  show ?case
  proof (cases "is_dir fs q")
    case True
    then show ?thesis using nf by (rule mkdir_parent_is_dir)
  next
    case False
    then have s: "stat fs q = Inl FileNotFoundError"
      using stat_no_file [OF pq] by (simp add: is_dir_def)
    obtain fs1 where m1: "mkdir True True q fs = Inr fs1" and d1: "is_dir fs1 q"
      and k1: "\<forall>r. is_dir fs r \<longrightarrow> is_dir fs1 r"
      and e1: "\<forall>r. map_of fs1 r = map_of fs r \<or> map_of fs1 r = Some Dir"
      using snoc.IH [OF pq] by blast
    have nf1: "map_of fs1 (q @ [c]) \<noteq> Some File" using e1 [rule_format, of "q @ [c]"] nf by auto
    obtain fs' where m2: "mkdir False True (q @ [c]) fs1 = Inr fs'" and d2: "is_dir fs' (q @ [c])"
      and k2: "\<forall>r. is_dir fs1 r \<longrightarrow> is_dir fs' r"
      and e2: "\<forall>r. map_of fs' r = map_of fs1 r \<or> map_of fs' r = Some Dir"
      using mkdir_parent_is_dir [OF d1 nf1, of False] by blast
    have "mkdir True True (q @ [c]) fs = Inr fs'"
      by (subst mkdir.simps) (simp add: os_mkdir_snoc s m1 m2)
    moreover have "\<forall>r. is_dir fs r \<longrightarrow> is_dir fs' r" using k1 k2 by blast
    moreover have "\<forall>r. map_of fs' r = map_of fs r \<or> map_of fs' r = Some Dir"
    proof
      fix r
      show "map_of fs' r = map_of fs r \<or> map_of fs' r = Some Dir"
        using e1 [rule_format, of r] e2 [rule_format, of r] by auto
    qed
    ultimately show ?thesis using d2 by blast
  qed
qed

lemma mkdir_file_in_the_way:
  assumes "is_dir fs q" and "map_of fs (q @ [c]) = Some File"
  shows "mkdir parents exist_ok (q @ [c]) fs = Inl FileExistsError"
proof -
  have s: "stat fs q = Inr Dir" using assms(1) by (simp add: is_dir_def)
  have "\<not> is_dir fs (q @ [c])" using assms(2) by (simp add: is_dir_snoc)
  then show ?thesis
    by (subst mkdir.simps) (simp add: os_mkdir_snoc s assms(2))
qed

lemma call_result_shape:
  assumes "call eom args env capture_output cwd st = Some (res, st')" and "3 \<le> length eom"
  shows "res = Inl ValueError
       \<or> (\<exists>bs pre d4 returncode.
             bash_stdout st = text_lines bs @ pre @ d4 @ eom @ [NL] @ bash_stdout st'
           \<and> length d4 = 4 \<and> py_int d4 = Some returncode
           \<and> res = (if returncode \<noteq> 0 then
                       Inl (CalledProcessError returncode (Argv args)
                              (if capture_output then Some (text_lines bs @ pre) else None))
                     else Inr (if capture_output then text_lines bs @ pre else [])))"
proof -
  let ?st2 = "st\<lparr>sys_stdout := sys_stdout st @ ''    + '' @ command args @ [NL],
                 bash_stdin := bash_stdin st @ script env cwd args eom\<rparr>"
  let ?oio = "if capture_output then StringIO [] else SysStdout"
  have "read_loop eom ?oio ?st2 \<noteq> None"
    using assms(1) unfolding call_unfold by (cases "read_loop eom ?oio ?st2") simp_all
  then obtain r oio' st3 where y0: "read_loop eom ?oio ?st2 = Some (r, oio', st3)"
    by (cases "read_loop eom ?oio ?st2") auto
  have c: "Some (res, st') = Some (case r of
                  Inl e \<Rightarrow> Inl e
                | Inr returncode \<Rightarrow>
                    if returncode \<noteq> 0 then
                      Inl (CalledProcessError returncode (Argv args)
                             (case oio' of StringIO buf \<Rightarrow> Some buf | SysStdout \<Rightarrow> None))
                    else Inr (case oio' of StringIO buf \<Rightarrow> buf | SysStdout \<Rightarrow> []), st3)"
    using assms(1) unfolding call_unfold y0 by simp
  then have st3: "st3 = st'" by simp
  have y: "read_loop eom ?oio ?st2 = Some (r, oio', st')" using y0 st3 by simp
  have res: "res = (case r of
                  Inl e \<Rightarrow> Inl e
                | Inr returncode \<Rightarrow>
                    if returncode \<noteq> 0 then
                      Inl (CalledProcessError returncode (Argv args)
                             (case oio' of StringIO buf \<Rightarrow> Some buf | SysStdout \<Rightarrow> None))
                    else Inr (case oio' of StringIO buf \<Rightarrow> buf | SysStdout \<Rightarrow> []))"
    using c by simp
  show ?thesis
  proof (cases r)
    case (Inl e)
    have "e = ValueError"
      using y [unfolded Inl]
    proof (rule read_loop_result)
      fix bs b
      assume "Inl e = (case py_int (returncode_str (b @ eom @ [NL]) eom) of
                None \<Rightarrow> Inl ValueError | Some returncode \<Rightarrow> Inr returncode)"
      then show "e = ValueError" by (simp split: option.splits)
    qed
    with Inl res show ?thesis by simp
  next
    case (Inr returncode)
    with y have y': "read_loop eom ?oio ?st2 = Some (Inr returncode, oio', st')" by simp
    obtain bs pre d4 where s: "bash_stdout ?st2 = text_lines bs @ pre @ d4 @ eom @ [NL] @ bash_stdout st'"
      and d: "length d4 = 4" "py_int d4 = Some returncode"
      and w: "written (oio', st') = written (?oio, ?st2) @ text_lines bs @ pre"
      using read_loop_status_shape [OF y' assms(2)] by blast
    have k: "oio' = (if capture_output then StringIO (text_lines bs @ pre) else SysStdout)"
      using read_loop_keeps_sink [OF y'] w by (cases capture_output) simp_all
    have "res = (if returncode \<noteq> 0 then
                       Inl (CalledProcessError returncode (Argv args)
                              (if capture_output then Some (text_lines bs @ pre) else None))
                     else Inr (if capture_output then text_lines bs @ pre else []))"
      using res Inr k by simp
    moreover have "bash_stdout st = text_lines bs @ pre @ d4 @ eom @ [NL] @ bash_stdout st'"
      using s by simp
    ultimately show ?thesis
      using d
      by (intro disjI2, rule_tac x = bs in exI, rule_tac x = pre in exI, rule_tac x = d4 in exI,
          rule_tac x = returncode in exI) simp
  qed
qed

section \<open>The claims\<close>

text \<open>
  C2. For every exit status in \<open>[0, 9999]\<close> the footer round-trips: \<open>printf\<close> writes
  exactly 4 digits, followed by the token and a newline; the 4 characters before the
  token, read back by \<open>call\<close> and parsed with \<open>int\<close>, are the status again, whatever
  the command printed before them on the same line, and the loop returns this status.
\<close>

theorem footer_roundtrip:
  assumes "status \<le> 9999" and "NL \<notin> set pre" and "NL \<notin> set eom"
  shows "length (printf_04d status) = 4
       \<and> returncode_str (pre @ footer status eom) eom = printf_04d status
       \<and> py_int (returncode_str (pre @ footer status eom) eom) = Some (int status)
       \<and> read_loop eom oio (st\<lparr>bash_stdout := pre @ footer status eom @ rest\<rparr>)
           = Some (Inr (int status), output_write oio pre (st\<lparr>bash_stdout := rest\<rparr>))"
proof -
  have n: "status < 10000" using assms(1) by simp
  have len: "length (printf_04d status) = 4" using n by (rule length_printf_04d)
  have rs: "returncode_str (pre @ footer status eom) eom = printf_04d status"
    unfolding footer_def using len by (rule returncode_str_line)
  have pi: "py_int (printf_04d status) = Some (int status)" using n by (rule py_int_printf_04d)
  let ?b = "pre @ printf_04d status @ eom"
  have nl: "NL \<notin> set ?b" using assms(2,3) NL_notin_printf_04d [OF n] by simp
  have ew: "endswith (?b @ [NL]) (eom @ [NL])"
    using endswith_append [of "pre @ printf_04d status" "eom @ [NL]"] by simp
  have "read_loop eom oio (st\<lparr>bash_stdout := text_lines [] @ ?b @ NL # rest\<rparr>)
          = Some (Inr (int status), output_write oio pre (st\<lparr>bash_stdout := rest\<rparr>))"
    using read_loop_lines_footer [where bs = "[]" and eom = eom and b = ?b and oio = oio and st = st
        and rest = rest, OF _ nl ew]
      rs pi output_line [OF len, of pre eom]
    by (simp add: footer_def text_lines_def)
  then have "read_loop eom oio (st\<lparr>bash_stdout := pre @ footer status eom @ rest\<rparr>)
          = Some (Inr (int status), output_write oio pre (st\<lparr>bash_stdout := rest\<rparr>))"
    by (simp add: footer_def text_lines_def)
  with len rs pi show ?thesis by simp
qed

theorem footer_roundtrip_witness:
  "(137 :: nat) \<le> 9999
   \<and> footer 137 ''6f1c2a9e-3b7d-4c58-9a41-0d2e5f8b7c13'' = ''01376f1c2a9e-3b7d-4c58-9a41-0d2e5f8b7c13'' @ [NL]
   \<and> py_int (returncode_str (''make: error'' @ footer 137 ''6f1c2a9e-3b7d-4c58-9a41-0d2e5f8b7c13'')
        ''6f1c2a9e-3b7d-4c58-9a41-0d2e5f8b7c13'') = Some 137"
proof -
  have f: "footer 137 ''6f1c2a9e-3b7d-4c58-9a41-0d2e5f8b7c13'' = ''01376f1c2a9e-3b7d-4c58-9a41-0d2e5f8b7c13'' @ [NL]"
    by code_simp
  have h: "(137 :: nat) \<le> 9999" "NL \<notin> set ''make: error''"
    "NL \<notin> set ''6f1c2a9e-3b7d-4c58-9a41-0d2e5f8b7c13''"
    by simp_all
  have "py_int (returncode_str (''make: error'' @ footer 137 ''6f1c2a9e-3b7d-4c58-9a41-0d2e5f8b7c13'')
        ''6f1c2a9e-3b7d-4c58-9a41-0d2e5f8b7c13'') = Some (int 137)"
    by (rule footer_roundtrip [OF h, THEN conjunct2, THEN conjunct2, THEN conjunct1])
  then show ?thesis using f by simp
qed

text \<open>
  C4. The accumulated output never includes the footer: whenever the loop returns a
  status (with a token of at least 3 characters, as every UUID string is), the text it
  consumed is whole lines, then a prefix \<open>pre\<close> of the footer line, the 4 characters of
  the status, the token and a newline; what was added to the sink, buffer or standard
  output, is the whole lines and \<open>pre\<close>, and nothing of the status, the token or the
  newline after it.
\<close>

theorem output_excludes_footer:
  assumes "read_loop eom oio st = Some (Inr returncode, oio', st')" and "3 \<le> length eom"
  shows "\<exists>bs pre d4.
           bash_stdout st = text_lines bs @ pre @ d4 @ eom @ [NL] @ bash_stdout st'
         \<and> NL \<notin> set pre \<and> length d4 = 4 \<and> py_int d4 = Some returncode
         \<and> written (oio', st') = written (oio, st) @ text_lines bs @ pre"
  using assms by (rule read_loop_status_shape)

theorem output_excludes_footer_witness:
  "3 \<le> length example_token
   \<and> read_loop example_token (StringIO [])
       (example_world (''hello'' @ [NL] @ ''warn: x0000'' @ example_token @ [NL] @ ''next''))
     = Some (Inr 0, StringIO (''hello'' @ [NL] @ ''warn: x''), example_world ''next'')
   \<and> (\<exists>bs pre d4.
         ''hello'' @ [NL] @ ''warn: x0000'' @ example_token @ [NL] @ ''next''
           = text_lines bs @ pre @ d4 @ example_token @ [NL] @ ''next''
       \<and> NL \<notin> set pre \<and> length d4 = 4 \<and> py_int d4 = Some 0
       \<and> ''hello'' @ [NL] @ ''warn: x'' = text_lines bs @ pre)"
proof -
  have r: "read_loop example_token (StringIO [])
       (example_world (''hello'' @ [NL] @ ''warn: x0000'' @ example_token @ [NL] @ ''next''))
     = Some (Inr 0, StringIO (''hello'' @ [NL] @ ''warn: x''), example_world ''next'')"
    by code_simp
  have l: "3 \<le> length example_token" by simp
  show ?thesis using r l output_excludes_footer [OF r l] by simp
qed

text \<open>
  C5. The loop ends at the first line that ends with the token and a newline, and takes
  the status from that line, whatever follows it: when a line of the command's own
  output ends so, the loop returns what stands before the token in that line (or the
  \<open>ValueError\<close> of \<open>int\<close>), and the real footer stays unread in \<open>bash_stdout\<close>.
\<close>

theorem read_loop_stops_at_first_token_line:
  assumes "\<forall>x \<in> set bs. NL \<notin> set x \<and> \<not> endswith (x @ [NL]) (eom @ [NL])"
    and "NL \<notin> set b" and "endswith (b @ [NL]) (eom @ [NL])"
    and "bash_stdout st = text_lines bs @ b @ NL # rest"
  shows "read_loop eom oio st =
           Some (case py_int (returncode_str (b @ [NL]) eom) of
                   None \<Rightarrow>
                     (Inl ValueError, output_write oio (text_lines bs) (st\<lparr>bash_stdout := rest\<rparr>))
                 | Some returncode \<Rightarrow>
                     (Inr returncode,
                      output_write oio
                        (text_lines bs @ py_slice (b @ [NL]) 0 (footer_offset (b @ [NL]) eom))
                        (st\<lparr>bash_stdout := rest\<rparr>)))"
proof -
  have "st\<lparr>bash_stdout := text_lines bs @ b @ NL # rest\<rparr> = st" using assms(4) by simp
  then show ?thesis
    using read_loop_lines_footer [OF assms(1-3), where oio = oio and st = st and rest = rest]
    by (simp split: option.splits)
qed

theorem read_loop_stops_at_first_token_line_witness:
  "NL \<notin> set ''compiling'' \<and> \<not> endswith (''compiling'' @ [NL]) (example_token @ [NL])
   \<and> NL \<notin> set (''exit code 0007'' @ example_token)
   \<and> endswith ((''exit code 0007'' @ example_token) @ [NL]) (example_token @ [NL])
   \<and> read_loop example_token (StringIO [])
        (example_world (''compiling'' @ [NL] @ ''exit code 0007'' @ example_token @ [NL]
                        @ footer 0 example_token))
      = Some (Inr 7, StringIO (''compiling'' @ [NL] @ ''exit code ''),
              example_world (footer 0 example_token))"
proof -
  have h1: "\<forall>x \<in> set [''compiling'']. NL \<notin> set x \<and> \<not> endswith (x @ [NL]) (example_token @ [NL])"
    by (simp add: endswith_def)
  have h2: "NL \<notin> set (''exit code 0007'' @ example_token)" by simp
  have h3: "endswith ((''exit code 0007'' @ example_token) @ [NL]) (example_token @ [NL])"
    by (simp add: endswith_def)
  have h4: "bash_stdout (example_world (''compiling'' @ [NL] @ ''exit code 0007'' @ example_token @ [NL]
                        @ footer 0 example_token))
            = text_lines [''compiling''] @ (''exit code 0007'' @ example_token) @ NL # footer 0 example_token"
    by (simp add: text_lines_def)
  have v: "py_int (returncode_str ((''exit code 0007'' @ example_token) @ [NL]) example_token) = Some 7"
    by code_simp
  have o: "py_slice ((''exit code 0007'' @ example_token) @ [NL]) 0
             (footer_offset ((''exit code 0007'' @ example_token) @ [NL]) example_token) = ''exit code ''"
    by code_simp
  have "read_loop example_token (StringIO [])
        (example_world (''compiling'' @ [NL] @ ''exit code 0007'' @ example_token @ [NL]
                        @ footer 0 example_token))
      = Some (Inr 7, StringIO (''compiling'' @ [NL] @ ''exit code ''),
              example_world (footer 0 example_token))"
    unfolding read_loop_stops_at_first_token_line [OF h1 h2 h3 h4, of "StringIO []"] v o
    by (simp add: text_lines_def)
  with h1 h2 h3 show ?thesis by simp
qed

text \<open>
  C3. \<open>call\<close> raises \<open>CalledProcessError\<close> exactly when the parsed exit status is not 0.
  Let the shell's output be whole lines that do not end with the token, then a line
  with the text \<open>pre\<close>, 4 characters \<open>d4\<close>, the token and a newline. When \<open>int(d4)\<close> is
  a status other than 0, the call raises \<open>CalledProcessError\<close> with this status, the
  argument vector and the captured output (\<open>None\<close> when nothing was captured); when
  it is 0, the call returns the captured output, and the empty string when nothing
  was captured; when \<open>d4\<close> is no integer, the call raises the \<open>ValueError\<close> of \<open>int\<close>.
  The state the call leaves is given in each case. Every call that returns or raises
  has read such a line (\<open>call_result_shape\<close>).
\<close>

theorem call_raises_iff_nonzero:
  assumes "bash_stdout st = text_lines bs @ pre @ d4 @ eom @ NL # rest"
    and "\<forall>x \<in> set bs. NL \<notin> set x \<and> \<not> endswith (x @ [NL]) (eom @ [NL])"
    and "NL \<notin> set (pre @ d4 @ eom)"
    and "length d4 = 4"
  shows "call eom args env capture_output cwd st =
           Some (case py_int d4 of
                   None \<Rightarrow>
                     (Inl ValueError,
                      st\<lparr>bash_stdin := bash_stdin st @ script env cwd args eom,
                         bash_stdout := rest,
                         sys_stdout := sys_stdout st @ ''    + '' @ command args @ [NL]
                                       @ (if capture_output then [] else text_lines bs)\<rparr>)
                 | Some returncode \<Rightarrow>
                     (if returncode \<noteq> 0 then
                        Inl (CalledProcessError returncode (Argv args)
                               (if capture_output then Some (text_lines bs @ pre) else None))
                      else Inr (if capture_output then text_lines bs @ pre else []),
                      st\<lparr>bash_stdin := bash_stdin st @ script env cwd args eom,
                         bash_stdout := rest,
                         sys_stdout := sys_stdout st @ ''    + '' @ command args @ [NL]
                                       @ (if capture_output then [] else text_lines bs @ pre)\<rparr>))"
proof -
  let ?st2 = "st\<lparr>sys_stdout := sys_stdout st @ ''    + '' @ command args @ [NL],
                 bash_stdin := bash_stdin st @ script env cwd args eom\<rparr>"
  let ?oio = "if capture_output then StringIO [] else SysStdout"
  let ?b = "(pre @ d4) @ eom"
  have nl: "NL \<notin> set ?b" using assms(3) by simp
  have ew: "endswith (?b @ [NL]) (eom @ [NL])"
    using endswith_append [of "pre @ d4" "eom @ [NL]"] by simp
  have st2: "?st2\<lparr>bash_stdout := text_lines bs @ ?b @ NL # rest\<rparr> = ?st2"
    using assms(1) by simp
  have rs: "returncode_str (?b @ [NL]) eom = d4"
    using returncode_str_line [OF assms(4), of pre eom] by simp
  have ol: "py_slice (?b @ [NL]) 0 (footer_offset (?b @ [NL]) eom) = pre"
    using output_line [OF assms(4), of pre eom] by simp
  have r: "read_loop eom ?oio ?st2 =
           (case py_int d4 of
              None \<Rightarrow> Some (Inl ValueError, output_write ?oio (text_lines bs) (?st2\<lparr>bash_stdout := rest\<rparr>))
            | Some returncode \<Rightarrow>
                Some (Inr returncode,
                  output_write ?oio (text_lines bs @ pre) (?st2\<lparr>bash_stdout := rest\<rparr>)))"
    using read_loop_lines_footer [OF assms(2) nl ew, where oio = ?oio and st = ?st2 and rest = rest]
    unfolding st2 rs ol .
  show ?thesis
  proof (cases "py_int d4")
    case None
    show ?thesis
      unfolding call_unfold r None by (cases capture_output) simp_all
  next
    case (Some returncode)
    show ?thesis
      unfolding call_unfold r Some by (cases capture_output) simp_all
  qed
qed


theorem call_raises_iff_nonzero_witness:
  "py_int ''0001'' = Some 1
   \<and> call example_token [''false''] [] True None
         (example_world (''fail'' @ ''0001'' @ example_token @ [NL]))
       = Some (Inl (CalledProcessError 1 (Argv [''false'']) (Some ''fail'')),
               (example_world [])\<lparr>bash_stdin := script [] None [''false''] example_token,
                                   sys_stdout := ''    + false'' @ [NL]\<rparr>)
   \<and> call example_token [''false''] [] False None
         (example_world (''fail'' @ ''0001'' @ example_token @ [NL]))
       = Some (Inl (CalledProcessError 1 (Argv [''false'']) None),
               (example_world [])\<lparr>bash_stdin := script [] None [''false''] example_token,
                                   sys_stdout := ''    + false'' @ [NL] @ ''fail''\<rparr>)
   \<and> py_int ''0000'' = Some 0
   \<and> call example_token [''echo'', ''hello''] [] True None
         (example_world (''hello'' @ [NL] @ ''0000'' @ example_token @ [NL]))
       = Some (Inr (''hello'' @ [NL]),
               (example_world [])\<lparr>bash_stdin := script [] None [''echo'', ''hello''] example_token,
                                   sys_stdout := ''    + echo hello'' @ [NL]\<rparr>)
   \<and> call example_token [''echo'', ''hello''] [] False None
         (example_world (''hello'' @ [NL] @ ''0000'' @ example_token @ [NL]))
       = Some (Inr [],
               (example_world [])\<lparr>bash_stdin := script [] None [''echo'', ''hello''] example_token,
                                   sys_stdout := ''    + echo hello'' @ [NL] @ ''hello'' @ [NL]\<rparr>)"
proof -
  have p1: "py_int ''0001'' = Some 1" and p0: "py_int ''0000'' = Some 0" by code_simp+
  have k1: "command [''false''] = ''false''" and k0: "command [''echo'', ''hello''] = ''echo hello''"
    by code_simp+
  have f1: "bash_stdout (example_world (''fail'' @ ''0001'' @ example_token @ [NL]))
              = text_lines [] @ ''fail'' @ ''0001'' @ example_token @ NL # []"
    by (simp add: text_lines_def)
  have f2: "\<forall>x \<in> set ([] :: string list). NL \<notin> set x \<and> \<not> endswith (x @ [NL]) (example_token @ [NL])"
    by simp
  have f3: "NL \<notin> set (''fail'' @ ''0001'' @ example_token)" by simp
  have f4: "length ''0001'' = 4" by simp
  have g1: "bash_stdout (example_world (''hello'' @ [NL] @ ''0000'' @ example_token @ [NL]))
              = text_lines [''hello''] @ [] @ ''0000'' @ example_token @ NL # []"
    by (simp add: text_lines_def)
  have g2: "\<forall>x \<in> set [''hello'']. NL \<notin> set x \<and> \<not> endswith (x @ [NL]) (example_token @ [NL])"
    by (simp add: endswith_def)
  have g3: "NL \<notin> set ([] @ ''0000'' @ example_token)" by simp
  have g4: "length ''0000'' = 4" by simp
  have a: "call example_token [''false''] [] True None
         (example_world (''fail'' @ ''0001'' @ example_token @ [NL]))
       = Some (Inl (CalledProcessError 1 (Argv [''false'']) (Some ''fail'')),
               (example_world [])\<lparr>bash_stdin := script [] None [''false''] example_token,
                                   sys_stdout := ''    + false'' @ [NL]\<rparr>)"
    unfolding call_raises_iff_nonzero [OF f1 f2 f3 f4] p1 k1 by (simp add: text_lines_def)
  have b: "call example_token [''false''] [] False None
         (example_world (''fail'' @ ''0001'' @ example_token @ [NL]))
       = Some (Inl (CalledProcessError 1 (Argv [''false'']) None),
               (example_world [])\<lparr>bash_stdin := script [] None [''false''] example_token,
                                   sys_stdout := ''    + false'' @ [NL] @ ''fail''\<rparr>)"
    unfolding call_raises_iff_nonzero [OF f1 f2 f3 f4] p1 k1 by (simp add: text_lines_def)
  have c: "call example_token [''echo'', ''hello''] [] True None
         (example_world (''hello'' @ [NL] @ ''0000'' @ example_token @ [NL]))
       = Some (Inr (''hello'' @ [NL]),
               (example_world [])\<lparr>bash_stdin := script [] None [''echo'', ''hello''] example_token,
                                   sys_stdout := ''    + echo hello'' @ [NL]\<rparr>)"
    unfolding call_raises_iff_nonzero [OF g1 g2 g3 g4] p0 k0 by (simp add: text_lines_def)
  have d: "call example_token [''echo'', ''hello''] [] False None
         (example_world (''hello'' @ [NL] @ ''0000'' @ example_token @ [NL]))
       = Some (Inr [],
               (example_world [])\<lparr>bash_stdin := script [] None [''echo'', ''hello''] example_token,
                                   sys_stdout := ''    + echo hello'' @ [NL] @ ''hello'' @ [NL]\<rparr>)"
    unfolding call_raises_iff_nonzero [OF g1 g2 g3 g4] p0 k0 by (simp add: text_lines_def)
  from p1 a b p0 c d show ?thesis by (intro conjI)
qed

text \<open>
  C6, as the claim states it, fails: \<open>call\<close> prints the line \<open>    + command\<close> to the
  standard output before it reads, so the text on the standard output after a call
  without capture is not the text a capturing call returns.
\<close>

theorem sink_differs_from_captured:
  "call example_token [''echo'', ''hello''] [] False None
       (example_world (''hello'' @ [NL] @ footer 0 example_token))
     = Some (Inr [],
             (example_world [])\<lparr>bash_stdin := script [] None [''echo'', ''hello''] example_token,
                                 sys_stdout := ''    + echo hello'' @ [NL] @ ''hello'' @ [NL]\<rparr>)
   \<and> call example_token [''echo'', ''hello''] [] True None
       (example_world (''hello'' @ [NL] @ footer 0 example_token))
     = Some (Inr (''hello'' @ [NL]),
             (example_world [])\<lparr>bash_stdin := script [] None [''echo'', ''hello''] example_token,
                                 sys_stdout := ''    + echo hello'' @ [NL]\<rparr>)
   \<and> ''    + echo hello'' @ [NL] @ ''hello'' @ [NL] \<noteq> ''hello'' @ [NL]"
  by code_simp

text \<open>
  C6, amended. Reading the same shell output with the same token: when the capturing
  call returns \<open>out\<close>, it has written the line \<open>    + command\<close> to the standard output
  and nothing else, and the call without capture returns the empty string and has
  written that line followed by exactly \<open>out\<close>; the two calls leave the same state
  otherwise.
\<close>

theorem sink_is_log_line_then_captured:
  assumes "call eom args env True cwd st = Some (Inr out, st1)"
  shows "sys_stdout st1 = sys_stdout st @ ''    + '' @ command args @ [NL]
       \<and> call eom args env False cwd st
           = Some (Inr [], st1\<lparr>sys_stdout := sys_stdout st @ ''    + '' @ command args @ [NL] @ out\<rparr>)"
proof -
  let ?st2 = "st\<lparr>sys_stdout := sys_stdout st @ ''    + '' @ command args @ [NL],
                 bash_stdin := bash_stdin st @ script env cwd args eom\<rparr>"
  have "read_loop eom (StringIO []) ?st2 \<noteq> None"
    using assms unfolding call_unfold if_True by (cases "read_loop eom (StringIO []) ?st2") simp_all
  then obtain r oio' st3 where y: "read_loop eom (StringIO []) ?st2 = Some (r, oio', st3)"
    by (cases "read_loop eom (StringIO []) ?st2") auto
  have c: "Some (Inr out, st1) = Some (case r of
                  Inl e \<Rightarrow> Inl e
                | Inr returncode \<Rightarrow>
                    if returncode \<noteq> 0 then
                      Inl (CalledProcessError returncode (Argv args)
                             (case oio' of StringIO buf \<Rightarrow> Some buf | SysStdout \<Rightarrow> None))
                    else Inr (case oio' of StringIO buf \<Rightarrow> buf | SysStdout \<Rightarrow> []), st3)"
    using assms unfolding call_unfold if_True y by simp
  then have st3: "st3 = st1" by simp
  have r: "r = Inr 0" using c by (cases r) (simp_all split: if_splits)
  obtain x where o: "oio' = StringIO x"
    and n: "read_loop eom SysStdout ?st2 = Some (r, SysStdout, st3\<lparr>sys_stdout := sys_stdout st3 @ x\<rparr>)"
    using read_loop_other_sink [OF y] by auto
  have out: "out = x" using c r o by simp
  have log: "sys_stdout st1 = sys_stdout st @ ''    + '' @ command args @ [NL]"
    using read_loop_sys_stdout [OF y] st3 by simp
  have "call eom args env False cwd st = Some (Inr [], st1\<lparr>sys_stdout := sys_stdout st1 @ out\<rparr>)"
    unfolding call_unfold if_False n using r st3 out by simp
  with log show ?thesis by simp
qed

theorem sink_is_log_line_then_captured_witness:
  "call example_token [''echo'', ''hello''] [] True None
       (example_world (''hello'' @ [NL] @ footer 0 example_token))
     = Some (Inr (''hello'' @ [NL]),
             (example_world [])\<lparr>bash_stdin := script [] None [''echo'', ''hello''] example_token,
                                 sys_stdout := ''    + echo hello'' @ [NL]\<rparr>)
   \<and> call example_token [''echo'', ''hello''] [] False None
       (example_world (''hello'' @ [NL] @ footer 0 example_token))
     = Some (Inr [],
             (example_world [])\<lparr>bash_stdin := script [] None [''echo'', ''hello''] example_token,
                                 sys_stdout := ''    + echo hello'' @ [NL] @ ''hello'' @ [NL]\<rparr>)"
proof -
  have c: "call example_token [''echo'', ''hello''] [] True None
       (example_world (''hello'' @ [NL] @ footer 0 example_token))
     = Some (Inr (''hello'' @ [NL]),
             (example_world [])\<lparr>bash_stdin := script [] None [''echo'', ''hello''] example_token,
                                 sys_stdout := ''    + echo hello'' @ [NL]\<rparr>)"
    by code_simp
  have k: "command [''echo'', ''hello''] = ''echo hello''" by code_simp
  show ?thesis using c sink_is_log_line_then_captured [OF c] by (simp add: k)
qed

text \<open>
  C1 does not hold of the code: \<open>environment_executor\<close> calls \<open>call\<close> without
  \<open>capture_output\<close>, so the output of the command goes to the standard output and the
  returned text is empty (\<open>environment_executor_output_empty\<close>, for every tokenizer,
  command line and environment). For the command line \<open>echo $X\<close> with \<open>X\<close> set to
  \<open>val\<close>, whose words are \<open>echo\<close> and \<open>$X\<close>, and a shell that prints \<open>val\<close> and status 0,
  the result is the empty string and not \<open>val\<close> with its newline.
\<close>

theorem environment_executor_echo_returns_empty:
  "environment_executor (\<lambda>s. Inr [''echo'', ''$X'']) example_token ''echo $X'' [(''X'', ''val'')]
     (example_world (''val'' @ [NL] @ footer 0 example_token))
   = Some (Inr [],
           (example_world [])\<lparr>bash_stdin := script [(''X'', ''val'')] None [''echo'', ''$X''] example_token,
                               sys_stdout := ''    + echo '' @ [SQ] @ ''$X'' @ [SQ, NL] @ ''val'' @ [NL]\<rparr>)"
  by code_simp

text \<open>
  C8. \<open>__exit__\<close> of an entered container closes the shell's input, terminates the
  shell process, waits for it, and only then runs \<open>docker rm --force -v\<close> on the
  container's name: these four operations, in this order, are what it adds to the
  operations of the host; then the name is cleared.
\<close>

theorem exit_container_order:
  assumes "container_name st = Some name"
  shows "exit_container returncode st =
           (Inr (),
            st\<lparr>host_events := host_events st @
                   [Stdin_close, Terminate, Wait,
                    Run (Argv [''docker'', ''rm'', ''--force'', ''-v'', name]) None],
               container_name := None\<rparr>)"
  using assms by (simp add: exit_container_def subprocess_run_def Let_def)

theorem exit_container_order_witness:
  "container_name (example_world []) = Some ''cibuildwheel-0b5e''
   \<and> exit_container 0 (example_world []) =
           (Inr (),
            (example_world [])\<lparr>host_events :=
                   [Stdin_close, Terminate, Wait,
                    Run (Argv [''docker'', ''rm'', ''--force'', ''-v'', ''cibuildwheel-0b5e'']) None],
               container_name := None\<rparr>)"
  using exit_container_order [of "example_world []" "''cibuildwheel-0b5e''" 0] by simp

text \<open>
  C9. \<open>__exit__\<close> ignores the exit status of \<open>docker rm\<close>: it returns normally for
  every status and leaves the same state as for status 0, where the same command run
  with \<open>check=True\<close> raises for every status other than 0.
\<close>

theorem exit_container_ignores_rm_status:
  assumes "container_name st = Some name"
  shows "fst (exit_container returncode st) = Inr ()
       \<and> exit_container returncode st = exit_container 0 st
       \<and> (fst (subprocess_run (Argv [''docker'', ''rm'', ''--force'', ''-v'', name]) True None returncode st)
            = Inr () \<longleftrightarrow> returncode = 0)"
  using assms by (simp add: exit_container_def subprocess_run_def Let_def)

theorem exit_container_ignores_rm_status_witness:
  "container_name (example_world []) = Some ''cibuildwheel-0b5e''
   \<and> fst (exit_container 1 (example_world [])) = Inr ()
   \<and> exit_container 1 (example_world []) = exit_container 0 (example_world [])"
proof -
  have h: "container_name (example_world []) = Some ''cibuildwheel-0b5e''" by simp
  show ?thesis using h exit_container_ignores_rm_status [OF h, of 1] by blast
qed

text \<open>
  C7. When \<open>from_path\<close> is a directory, \<open>copy_into\<close> first runs \<open>mkdir -p to_path\<close> by
  \<open>call\<close>, that is, the script of this command is written to the shell's input and no
  process is started; when this call returns, the \<open>tar\<close> pipeline into \<open>docker exec\<close>
  is run as a process of the host, in the directory \<open>from_path\<close> and with \<open>check\<close>, and
  nothing more is written to the shell; when the call raises, so does \<open>copy_into\<close>,
  and no process is run. When \<open>from_path\<close> is not a directory, the only step is the
  \<open>cat\<close> pipeline into a \<open>docker exec\<close> that redirects to \<open>to_path\<close>.
\<close>

theorem copy_into_steps:
  "(is_dir (host_fs st) from_path
      \<and> call eom [''mkdir'', ''-p'', path_str to_path] [] False None st = Some (Inr out, st1)
    \<longrightarrow> bash_stdin st1 = bash_stdin st @ script [] None [''mkdir'', ''-p'', path_str to_path] eom
      \<and> host_events st1 = host_events st
      \<and> copy_into eom returncode from_path to_path st =
            Some (if returncode \<noteq> 0 then
                    Inl (CalledProcessError returncode
                           (Shell (''tar cf - . | docker exec -i '' @ name_str st @ '' tar -xC ''
                                   @ path_str to_path @ '' -f -'')) None)
                  else Inr (),
                  st1\<lparr>host_events := host_events st @
                         [Run (Shell (''tar cf - . | docker exec -i '' @ name_str st @ '' tar -xC ''
                                      @ path_str to_path @ '' -f -'')) (Some from_path)]\<rparr>))
   \<and> (is_dir (host_fs st) from_path
      \<and> call eom [''mkdir'', ''-p'', path_str to_path] [] False None st = Some (Inl e, st1)
    \<longrightarrow> host_events st1 = host_events st
      \<and> copy_into eom returncode from_path to_path st = Some (Inl e, st1))
   \<and> (\<not> is_dir (host_fs st) from_path
    \<longrightarrow> copy_into eom returncode from_path to_path st =
            Some (if returncode \<noteq> 0 then
                    Inl (CalledProcessError returncode
                           (Shell (''cat '' @ path_str from_path @ '' | docker exec -i '' @ name_str st
                                   @ '' sh -c '' @ [DQ] @ ''cat > '' @ path_str to_path @ [DQ])) None)
                  else Inr (),
                  st\<lparr>host_events := host_events st @
                         [Run (Shell (''cat '' @ path_str from_path @ '' | docker exec -i '' @ name_str st
                                   @ '' sh -c '' @ [DQ] @ ''cat > '' @ path_str to_path @ [DQ])) None]\<rparr>))"
proof (intro conjI impI)
  assume a: "is_dir (host_fs st) from_path
      \<and> call eom [''mkdir'', ''-p'', path_str to_path] [] False None st = Some (Inr out, st1)"
  then have c: "call eom [''mkdir'', ''-p'', path_str to_path] [] False None st = Some (Inr out, st1)"
    by simp
  note f = call_frame [OF c]
  show "bash_stdin st1 = bash_stdin st @ script [] None [''mkdir'', ''-p'', path_str to_path] eom"
    using f by simp
  show "host_events st1 = host_events st" using f by simp
  have n: "name_str st1 = name_str st" using f by (simp add: name_str_def)
  show "copy_into eom returncode from_path to_path st =
            Some (if returncode \<noteq> 0 then
                    Inl (CalledProcessError returncode
                           (Shell (''tar cf - . | docker exec -i '' @ name_str st @ '' tar -xC ''
                                   @ path_str to_path @ '' -f -'')) None)
                  else Inr (),
                  st1\<lparr>host_events := host_events st @
                         [Run (Shell (''tar cf - . | docker exec -i '' @ name_str st @ '' tar -xC ''
                                      @ path_str to_path @ '' -f -'')) (Some from_path)]\<rparr>)"
    using a f n by (simp add: copy_into_def subprocess_run_def Let_def)
next
  assume a: "is_dir (host_fs st) from_path
      \<and> call eom [''mkdir'', ''-p'', path_str to_path] [] False None st = Some (Inl e, st1)"
  then have c: "call eom [''mkdir'', ''-p'', path_str to_path] [] False None st = Some (Inl e, st1)"
    by simp
  show "host_events st1 = host_events st" using call_frame [OF c] by simp
  show "copy_into eom returncode from_path to_path st = Some (Inl e, st1)"
    using a by (simp add: copy_into_def)
next
  assume "\<not> is_dir (host_fs st) from_path"
  then show "copy_into eom returncode from_path to_path st =
            Some (if returncode \<noteq> 0 then
                    Inl (CalledProcessError returncode
                           (Shell (''cat '' @ path_str from_path @ '' | docker exec -i '' @ name_str st
                                   @ '' sh -c '' @ [DQ] @ ''cat > '' @ path_str to_path @ [DQ])) None)
                  else Inr (),
                  st\<lparr>host_events := host_events st @
                         [Run (Shell (''cat '' @ path_str from_path @ '' | docker exec -i '' @ name_str st
                                   @ '' sh -c '' @ [DQ] @ ''cat > '' @ path_str to_path @ [DQ])) None]\<rparr>)"
    by (simp add: copy_into_def subprocess_run_def Let_def)
qed

theorem copy_into_steps_witness:
  "is_dir example_fs [''src'']
   \<and> call example_token [''mkdir'', ''-p'', ''/project''] [] False None
         (example_host (footer 0 example_token))
       = Some (Inr [],
               (example_host [])\<lparr>bash_stdin := script [] None [''mkdir'', ''-p'', ''/project''] example_token,
                                  sys_stdout := ''    + mkdir -p /project'' @ [NL]\<rparr>)
   \<and> copy_into example_token 0 [''src''] [''project''] (example_host (footer 0 example_token))
       = Some (Inr (),
               (example_host [])\<lparr>bash_stdin := script [] None [''mkdir'', ''-p'', ''/project''] example_token,
                                  sys_stdout := ''    + mkdir -p /project'' @ [NL],
                                  host_events :=
                                    [Run (Shell ''tar cf - . | docker exec -i cibuildwheel-0b5e tar -xC /project -f -'')
                                       (Some [''src''])]\<rparr>)
   \<and> call example_token [''mkdir'', ''-p'', ''/project''] [] False None
         (example_host (footer 1 example_token))
       = Some (Inl (CalledProcessError 1 (Argv [''mkdir'', ''-p'', ''/project'']) None),
               (example_host [])\<lparr>bash_stdin := script [] None [''mkdir'', ''-p'', ''/project''] example_token,
                                  sys_stdout := ''    + mkdir -p /project'' @ [NL]\<rparr>)
   \<and> copy_into example_token 0 [''src''] [''project''] (example_host (footer 1 example_token))
       = Some (Inl (CalledProcessError 1 (Argv [''mkdir'', ''-p'', ''/project'']) None),
               (example_host [])\<lparr>bash_stdin := script [] None [''mkdir'', ''-p'', ''/project''] example_token,
                                  sys_stdout := ''    + mkdir -p /project'' @ [NL]\<rparr>)
   \<and> \<not> is_dir example_fs [''src'', ''setup.py'']
   \<and> copy_into example_token 0 [''src'', ''setup.py''] [''project'', ''setup.py'']
         (example_host (footer 0 example_token))
       = Some (Inr (),
               (example_host (footer 0 example_token))\<lparr>host_events :=
                  [Run (Shell (''cat /src/setup.py | docker exec -i cibuildwheel-0b5e sh -c ''
                               @ [DQ] @ ''cat > /project/setup.py'' @ [DQ])) None]\<rparr>)"
proof -
  have p: "path_str [''project''] = ''/project''" "path_str [''src'', ''setup.py''] = ''/src/setup.py''"
    "path_str [''project'', ''setup.py''] = ''/project/setup.py''"
    by (simp_all add: path_str_def)
  have n: "name_str (example_host out) = ''cibuildwheel-0b5e''" for out
    by (simp add: name_str_def)
  have d1: "is_dir example_fs [''src'']" by code_simp
  have d2: "\<not> is_dir example_fs [''src'', ''setup.py'']" by code_simp
  have c1: "call example_token [''mkdir'', ''-p'', ''/project''] [] False None
         (example_host (footer 0 example_token))
       = Some (Inr [],
               (example_host [])\<lparr>bash_stdin := script [] None [''mkdir'', ''-p'', ''/project''] example_token,
                                  sys_stdout := ''    + mkdir -p /project'' @ [NL]\<rparr>)"
    by code_simp
  have c2: "call example_token [''mkdir'', ''-p'', ''/project''] [] False None
         (example_host (footer 1 example_token))
       = Some (Inl (CalledProcessError 1 (Argv [''mkdir'', ''-p'', ''/project'']) None),
               (example_host [])\<lparr>bash_stdin := script [] None [''mkdir'', ''-p'', ''/project''] example_token,
                                  sys_stdout := ''    + mkdir -p /project'' @ [NL]\<rparr>)"
    by code_simp
  have a: "copy_into example_token 0 [''src''] [''project''] (example_host (footer 0 example_token))
       = Some (Inr (),
               (example_host [])\<lparr>bash_stdin := script [] None [''mkdir'', ''-p'', ''/project''] example_token,
                                  sys_stdout := ''    + mkdir -p /project'' @ [NL],
                                  host_events :=
                                    [Run (Shell ''tar cf - . | docker exec -i cibuildwheel-0b5e tar -xC /project -f -'')
                                       (Some [''src''])]\<rparr>)"
    using copy_into_steps [where st = "example_host (footer 0 example_token)" and from_path = "[''src'']"
        and to_path = "[''project'']" and eom = example_token and returncode = 0 and out = "[]"
        and ?st1.0 = "(example_host [])\<lparr>bash_stdin := script [] None [''mkdir'', ''-p'', ''/project''] example_token,
                                  sys_stdout := ''    + mkdir -p /project'' @ [NL]\<rparr>", THEN conjunct1]
      d1 c1
    by (simp add: p n)
  have b: "copy_into example_token 0 [''src''] [''project''] (example_host (footer 1 example_token))
       = Some (Inl (CalledProcessError 1 (Argv [''mkdir'', ''-p'', ''/project'']) None),
               (example_host [])\<lparr>bash_stdin := script [] None [''mkdir'', ''-p'', ''/project''] example_token,
                                  sys_stdout := ''    + mkdir -p /project'' @ [NL]\<rparr>)"
    using copy_into_steps [where st = "example_host (footer 1 example_token)" and from_path = "[''src'']"
        and to_path = "[''project'']" and eom = example_token and returncode = 0
        and e = "CalledProcessError 1 (Argv [''mkdir'', ''-p'', ''/project'']) None"
        and ?st1.0 = "(example_host [])\<lparr>bash_stdin := script [] None [''mkdir'', ''-p'', ''/project''] example_token,
                                  sys_stdout := ''    + mkdir -p /project'' @ [NL]\<rparr>",
        THEN conjunct2, THEN conjunct1]
      d1 c2
    by (simp add: p n)
  have c: "copy_into example_token 0 [''src'', ''setup.py''] [''project'', ''setup.py'']
         (example_host (footer 0 example_token))
       = Some (Inr (),
               (example_host (footer 0 example_token))\<lparr>host_events :=
                  [Run (Shell (''cat /src/setup.py | docker exec -i cibuildwheel-0b5e sh -c ''
                               @ [DQ] @ ''cat > /project/setup.py'' @ [DQ])) None]\<rparr>)"
    using copy_into_steps [where st = "example_host (footer 0 example_token)"
        and from_path = "[''src'', ''setup.py'']" and to_path = "[''project'', ''setup.py'']"
        and eom = example_token and returncode = 0, THEN conjunct2, THEN conjunct2]
      d2
    by (simp add: p n)
  from d1 c1 a c2 b d2 c show ?thesis by (intro conjI)
qed

text \<open>
  C10. \<open>copy_out\<close> makes the directory \<open>to_path\<close> with its missing parents: when no
  regular file stands at \<open>to_path\<close> or above it, \<open>mkdir\<close> succeeds, \<open>to_path\<close> and all
  the directories above it exist afterwards, and every directory that existed still
  does; when \<open>to_path\<close> is a directory already, nothing fails and the file system
  stays as it is. The pipeline that extracts the archive then runs with \<open>to_path\<close> as
  its working directory.
\<close>

theorem copy_out_creates_directory:
  assumes "\<forall>q \<in> set (prefixes to_path). map_of (host_fs st) q \<noteq> Some File"
  shows "\<exists>fs'. mkdir True True to_path (host_fs st) = Inr fs'
       \<and> (\<forall>q \<in> set (prefixes to_path). is_dir fs' q)
       \<and> (\<forall>r. is_dir (host_fs st) r \<longrightarrow> is_dir fs' r)
       \<and> (is_dir (host_fs st) to_path \<longrightarrow> fs' = host_fs st)
       \<and> copy_out returncode from_path to_path st =
           (if returncode \<noteq> 0 then
              Inl (CalledProcessError returncode
                     (Shell (''docker exec -i '' @ name_str st @ '' tar -cC '' @ path_str from_path
                             @ '' -f - . | tar -xf -'')) None)
            else Inr (),
            st\<lparr>host_fs := fs',
               host_events := host_events st @
                 [Run (Shell (''docker exec -i '' @ name_str st @ '' tar -cC '' @ path_str from_path
                              @ '' -f - . | tar -xf -'')) (Some to_path)]\<rparr>)"
proof -
  obtain fs' where m: "mkdir True True to_path (host_fs st) = Inr fs'" and d: "is_dir fs' to_path"
    and k: "\<forall>r. is_dir (host_fs st) r \<longrightarrow> is_dir fs' r"
    using mkdir_parents [OF assms] by blast
  have 1: "\<forall>q \<in> set (prefixes to_path). is_dir fs' q"
    using d by (auto intro: is_dir_prefix)
  have 2: "is_dir (host_fs st) to_path \<longrightarrow> fs' = host_fs st"
    using m by (auto simp: mkdir_existing)
  have 3: "copy_out returncode from_path to_path st =
           (if returncode \<noteq> 0 then
              Inl (CalledProcessError returncode
                     (Shell (''docker exec -i '' @ name_str st @ '' tar -cC '' @ path_str from_path
                             @ '' -f - . | tar -xf -'')) None)
            else Inr (),
            st\<lparr>host_fs := fs',
               host_events := host_events st @
                 [Run (Shell (''docker exec -i '' @ name_str st @ '' tar -cC '' @ path_str from_path
                              @ '' -f - . | tar -xf -'')) (Some to_path)]\<rparr>)"
    by (simp add: copy_out_def m subprocess_run_def Let_def name_str_def)
  show ?thesis using m 1 k 2 3 by blast
qed

theorem copy_out_creates_directory_witness:
  "map_of example_fs [] \<noteq> Some File \<and> map_of example_fs [''out''] \<noteq> Some File
   \<and> map_of example_fs [''out'', ''wheelhouse''] \<noteq> Some File
   \<and> mkdir True True [''out'', ''wheelhouse''] example_fs
       = Inr (([''out'', ''wheelhouse''], Dir) # ([''out''], Dir) # example_fs)
   \<and> is_dir (([''out'', ''wheelhouse''], Dir) # ([''out''], Dir) # example_fs) [''out'', ''wheelhouse'']
   \<and> copy_out 0 [''project'', ''dist''] [''out'', ''wheelhouse''] (example_host [])
       = (Inr (),
          (example_host [])\<lparr>host_fs := ([''out'', ''wheelhouse''], Dir) # ([''out''], Dir) # example_fs,
             host_events :=
               [Run (Shell ''docker exec -i cibuildwheel-0b5e tar -cC /project/dist -f - . | tar -xf -'')
                  (Some [''out'', ''wheelhouse''])]\<rparr>)"
proof -
  have h: "\<forall>q \<in> set (prefixes [''out'', ''wheelhouse'']). map_of (host_fs (example_host [])) q \<noteq> Some File"
    by simp
  have m: "mkdir True True [''out'', ''wheelhouse''] example_fs
       = Inr (([''out'', ''wheelhouse''], Dir) # ([''out''], Dir) # example_fs)"
    by code_simp
  have p: "path_str [''project'', ''dist''] = ''/project/dist''" by (simp add: path_str_def)
  have n: "name_str (example_host []) = ''cibuildwheel-0b5e''" by (simp add: name_str_def)
  obtain fs' where 1: "mkdir True True [''out'', ''wheelhouse''] (host_fs (example_host [])) = Inr fs'"
    and 2: "\<forall>q \<in> set (prefixes [''out'', ''wheelhouse'']). is_dir fs' q"
    and 3: "copy_out 0 [''project'', ''dist''] [''out'', ''wheelhouse''] (example_host []) =
           (if (0 :: int) \<noteq> 0 then
              Inl (CalledProcessError 0
                     (Shell (''docker exec -i '' @ name_str (example_host []) @ '' tar -cC ''
                             @ path_str [''project'', ''dist''] @ '' -f - . | tar -xf -'')) None)
            else Inr (),
            (example_host [])\<lparr>host_fs := fs',
               host_events := host_events (example_host []) @
                 [Run (Shell (''docker exec -i '' @ name_str (example_host []) @ '' tar -cC ''
                              @ path_str [''project'', ''dist''] @ '' -f - . | tar -xf -''))
                    (Some [''out'', ''wheelhouse''])]\<rparr>)"
    using copy_out_creates_directory [OF h, of 0 "[''project'', ''dist'']"] by blast
  have fs': "fs' = ([''out'', ''wheelhouse''], Dir) # ([''out''], Dir) # example_fs"
    using 1 m by simp
  have d: "is_dir (([''out'', ''wheelhouse''], Dir) # ([''out''], Dir) # example_fs) [''out'', ''wheelhouse'']"
    using 2 fs' by simp
  have c: "copy_out 0 [''project'', ''dist''] [''out'', ''wheelhouse''] (example_host [])
       = (Inr (),
          (example_host [])\<lparr>host_fs := ([''out'', ''wheelhouse''], Dir) # ([''out''], Dir) # example_fs,
             host_events :=
               [Run (Shell ''docker exec -i cibuildwheel-0b5e tar -cC /project/dist -f - . | tar -xf -'')
                  (Some [''out'', ''wheelhouse''])]\<rparr>)"
    using 3 by (simp add: fs' p n)
  have f: "map_of example_fs [] \<noteq> Some File" "map_of example_fs [''out''] \<noteq> Some File"
    "map_of example_fs [''out'', ''wheelhouse''] \<noteq> Some File" by simp_all
  from f m d c show ?thesis by (intro conjI)
qed

end
